theory Spec2Isabelle
  imports Complex_Main "HOL-Library.Log_Nat" "HOL-Library.Char_ord" "HOL-Library.List_Lexorder"
begin

section \<open>Python numbers\<close>

text \<open>
  The numbers of \<^verbatim>\<open>brusselator.py\<close> come from \<^verbatim>\<open>settings.json\<close> and are Python
  floats (IEEE doubles) or small integers. A number is modelled by the real it denotes, and
  every arithmetic operation of the source rounds its exact result to the nearest double,
  ties to even, with a 53-bit significand. The exponent range is left unbounded: overflow to
  infinity and subnormal results are outside the model. Non-finite values only appear as
  cells of solver output (see \<open>cell\<close> below).
\<close>

definition pow2 :: "int \<Rightarrow> real" where
  "pow2 e = (if 0 \<le> e then 2 ^ nat e else 1 / 2 ^ nat (- e))"

text \<open>The binary exponent \<open>\<lfloor>log\<^sub>2 \<bar>x\<bar>\<rfloor>\<close> of a non-zero real, computed on integers.\<close>

definition expo :: "real \<Rightarrow> int" where
  "expo x = (if 1 \<le> \<bar>x\<bar> then bitlen \<lfloor>\<bar>x\<bar>\<rfloor> - 1 else - bitlen (\<lceil>1 / \<bar>x\<bar>\<rceil> - 1))"

definition round_half_even :: "real \<Rightarrow> int" where
  "round_half_even x =
     (let f = \<lfloor>x\<rfloor>; d = x - of_int f
      in if d < 1 / 2 then f else if 1 / 2 < d then f + 1 else if even f then f else f + 1)"

definition rnd :: "real \<Rightarrow> real" where
  "rnd x = (if x = 0 then 0
            else of_int (round_half_even (x / pow2 (expo x - 52))) * pow2 (expo x - 52))"

datatype exn_text =
    Text string
  | Invalid_values_encountered string real

datatype error =
    ZeroDivisionError
  | ValueError exn_text
  | RuntimeWarning exn_text
  | OtherError exn_text

text \<open>Python's \<^verbatim>\<open>x / y\<close>, \<^verbatim>\<open>x * y\<close>, \<^verbatim>\<open>x + y\<close> and \<^verbatim>\<open>np.sqrt\<close> on floats.\<close>

definition truediv :: "real \<Rightarrow> real \<Rightarrow> error + real" where
  "truediv x y = (if y = 0 then Inl ZeroDivisionError else Inr (rnd (x / y)))"

definition fmul :: "real \<Rightarrow> real \<Rightarrow> real" where
  "fmul x y = rnd (x * y)"

definition fadd :: "real \<Rightarrow> real \<Rightarrow> real" where
  "fadd x y = rnd (x + y)"

definition fsqrt :: "real \<Rightarrow> real" where
  "fsqrt x = rnd (sqrt x)"

text \<open>A cell of a numpy array of doubles.\<close>

datatype cell = Finite real | PosInf | NegInf | NaN

fun isnan :: "cell \<Rightarrow> bool" where
  "isnan NaN = True"
| "isnan _ = False"

fun isinf :: "cell \<Rightarrow> bool" where
  "isinf PosInf = True"
| "isinf NegInf = True"
| "isinf _ = False"

section \<open>Python strings\<close>

text \<open>
  File names are modelled as ASCII strings. \<open>isdigit\<close>, \<open>py_int\<close> and \<open>py_str\<close> are
  \<^verbatim>\<open>str.isdigit\<close>, \<^verbatim>\<open>int\<close> and \<^verbatim>\<open>str\<close> on them; \<open>format_04d\<close> is the format
  specification \<^verbatim>\<open>{:04d}\<close> on a non-negative integer.
\<close>

definition isdigit_char :: "char \<Rightarrow> bool" where
  "isdigit_char c = (CHR ''0'' \<le> c \<and> c \<le> CHR ''9'')"

definition isdigit :: "string \<Rightarrow> bool" where
  "isdigit name = (name \<noteq> [] \<and> list_all isdigit_char name)"

definition digit_val :: "char \<Rightarrow> nat" where
  "digit_val c = of_char c - 48"

definition py_int :: "string \<Rightarrow> nat" where
  "py_int name = foldl (\<lambda>acc c. 10 * acc + digit_val c) 0 name"

definition digit_char :: "nat \<Rightarrow> char" where
  "digit_char d = char_of (48 + d)"

fun py_str :: "nat \<Rightarrow> string" where
  "py_str n = (if n < 10 then [digit_char n] else py_str (n div 10) @ [digit_char (n mod 10)])"

definition format_04d :: "nat \<Rightarrow> string" where
  "format_04d n = (let s = py_str n in replicate (4 - length s) CHR ''0'' @ s)"

definition endswith :: "string \<Rightarrow> string \<Rightarrow> bool" where
  "endswith s suffix =
     (length suffix \<le> length s \<and> drop (length s - length suffix) s = suffix)"

text \<open>\<^verbatim>\<open>max(xs, default=d)\<close>.\<close>

definition max_default :: "nat list \<Rightarrow> nat \<Rightarrow> nat" where
  "max_default xs d = (case xs of [] \<Rightarrow> d | x # rest \<Rightarrow> foldl max x rest)"

section \<open>Settings, modes and files\<close>

record mode =
  m_title :: string
  m_a :: real
  m_b :: real
  m_d0 :: real
  m_d1 :: real
  m_filename :: string
  m_description :: string

text \<open>The document loaded from \<^verbatim>\<open>settings.json\<close> (lines 183-196).\<close>

record json_settings =
  resolution :: nat
  frame_rate :: nat
  t_max :: real
  dt :: real
  color_vmin :: real
  color_vmax :: real
  u_color :: string
  v_color :: string
  fixed_boundary :: bool
  zoom_factor :: real
  modes :: "mode list"

text \<open>The same dictionary after \<^verbatim>\<open>settings.update\<close> (lines 199-210).\<close>

record settings = json_settings +
  RESOLUTION :: nat
  FRAME_RATE :: nat
  T_MAX :: real
  DT :: real
  COLOR_VMIN :: real
  COLOR_VMAX :: real
  U_COLOR :: string
  V_COLOR :: string
  FIXED_BOUNDARY :: bool
  ZOOM_FACTOR :: real

text \<open>
  What \<^verbatim>\<open>cv2.imread\<close> returns for a file: an image with its shape, or nothing when the
  file cannot be decoded.
\<close>

record image =
  img_height :: nat
  img_width :: nat
  img_layers :: nat
  img_pixels :: "nat list"

datatype disk_file = Png image | Unreadable

record video =
  vid_fps :: nat
  vid_size :: "nat \<times> nat"
  vid_frames :: "image list"

text \<open>
  A directory is the association list of its entries; a path is identified with the
  directory it lies in and its file name. Writing a file replaces an entry of the same name.
\<close>

type_synonym 'f directory = "(string \<times> 'f) list"

definition write_file :: "string \<Rightarrow> 'f \<Rightarrow> 'f directory \<Rightarrow> 'f directory" where
  "write_file name f d = (name, f) # filter (\<lambda>entry. fst entry \<noteq> name) d"

definition listdir :: "'f directory \<Rightarrow> string list" where
  "listdir d = remdups (map fst d)"

definition imread :: "disk_file directory \<Rightarrow> string \<Rightarrow> image option" where
  "imread d name = (case map_of d name of Some (Png img) \<Rightarrow> Some img | _ \<Rightarrow> None)"

datatype level = DEBUG | INFO | WARNING | ERROR

datatype message =
    Starting_mode string
  | Frames_directory_created string
  | Invalid_values string real
  | Debug_info_for string real
  | Min_Max cell cell
  | Mean_Std cell cell
  | Warning_or_error string exn_text
  | Saved_frame nat string real
  | Finished_processing string
  | Error_reading_frame string
  | Video_saved string

text \<open>
  The part of the outside world \<open>process_mode\<close> acts on: the mode's frames directory, the
  video files of the run directory, the log, and the \<^verbatim>\<open>(t_range, dt)\<close> arguments of each
  call of \<^verbatim>\<open>eq.solve\<close>.
\<close>

record world =
  frames :: "disk_file directory"
  videos :: "video directory"
  log_lines :: "(level \<times> message) list"
  solved :: "(real \<times> real) list"

definition logging :: "level \<Rightarrow> message \<Rightarrow> world \<Rightarrow> world" where
  "logging lvl msg w = w\<lparr>log_lines := log_lines w @ [(lvl, msg)]\<rparr>"

section \<open>Fields and the libraries\<close>

type_synonym 'a grid = "'a list list"

definition grid_of :: "nat \<Rightarrow> (nat \<Rightarrow> nat \<Rightarrow> 'a) \<Rightarrow> 'a grid" where
  "grid_of n f = map (\<lambda>y. map (\<lambda>x. f y x) [0..<n]) [0..<n]"

record field_collection =
  grid_radius :: real
  grid_shape :: nat
  grid_periodic :: bool
  u_data :: "cell grid"
  v_data :: "cell grid"

datatype pde = PDE real real real real

type_synonym snapshot = "real \<times> cell grid \<times> cell grid"

record figure =
  u_layer :: "cell option grid"
  v_layer :: "cell option grid"
  fig_cmaps :: "string \<times> string"
  fig_vmin :: real
  fig_vmax :: real
  fig_extent :: real
  fig_title :: string
  fig_params :: "real \<times> real \<times> real \<times> real"
  fig_description :: string

text \<open>
  The libraries the program calls are parameters: the noise sample of
  \<^verbatim>\<open>ScalarField.random_normal\<close> per cell, the solver with the snapshots its tracker stored
  (or the exception it raised), the file \<^verbatim>\<open>plt.savefig\<close> writes for a figure, and numpy's
  statistics. The constructors \<^verbatim>\<open>PDE\<close>, \<^verbatim>\<open>CartesianGrid\<close> and \<^verbatim>\<open>ScalarField\<close> are taken
  to succeed.
\<close>

record env =
  random_normal :: "nat \<Rightarrow> nat \<Rightarrow> real"
  solve :: "pde \<Rightarrow> field_collection \<Rightarrow> real \<Rightarrow> real \<Rightarrow> error + snapshot list"
  savefig :: "figure \<Rightarrow> disk_file"
  np_min :: "cell list \<Rightarrow> cell"
  np_max :: "cell list \<Rightarrow> cell"
  np_mean :: "cell list \<Rightarrow> cell"
  np_std :: "cell list \<Rightarrow> cell"

section \<open>\<^verbatim>\<open>check_for_invalid_values\<close> and \<^verbatim>\<open>print_debug_info\<close> (lines 53-64)\<close>

definition cells :: "cell grid \<times> cell grid \<Rightarrow> cell list" where
  "cells state_data = concat (fst state_data) @ concat (snd state_data)"

definition invalid :: "cell grid \<times> cell grid \<Rightarrow> bool" where
  "invalid state_data = (list_ex isnan (cells state_data) \<or> list_ex isinf (cells state_data))"

definition check_for_invalid_values ::
  "cell grid \<times> cell grid \<Rightarrow> string \<Rightarrow> real \<Rightarrow> world \<Rightarrow> world \<times> bool" where
  "check_for_invalid_values state_data title time_point w =
     (if invalid state_data
      then (logging ERROR (Invalid_values title time_point) w, True)
      else (w, False))"

definition print_debug_info ::
  "env \<Rightarrow> cell grid \<times> cell grid \<Rightarrow> string \<Rightarrow> real \<Rightarrow> world \<Rightarrow> world" where
  "print_debug_info env state_data title time_point w =
     (let w1 = logging DEBUG (Debug_info_for title time_point) w;
          w2 = logging DEBUG
                 (Min_Max (np_min env (cells state_data)) (np_max env (cells state_data))) w1
      in logging DEBUG
           (Mean_Std (np_mean env (cells state_data)) (np_std env (cells state_data))) w2)"

section \<open>\<^verbatim>\<open>process_mode\<close> (lines 66-179)\<close>

subsection \<open>Initial state and circular mask (lines 86-101)\<close>

definition dist_from_center :: "nat \<Rightarrow> nat \<Rightarrow> nat \<Rightarrow> real" where
  "dist_from_center n y x =
     (let center = n div 2
      in fsqrt (of_int ((int x - int center) ^ 2 + (int y - int center) ^ 2)))"

definition mask_threshold :: "real \<Rightarrow> nat \<Rightarrow> error + real" where
  "mask_threshold RADIUS n =
     (case truediv (of_nat n) (fmul 2 RADIUS) of
        Inl e \<Rightarrow> Inl e
      | Inr per_unit \<Rightarrow> Inr (fmul RADIUS per_unit))"

definition circular_mask :: "nat \<Rightarrow> real \<Rightarrow> bool grid" where
  "circular_mask n thr = grid_of n (\<lambda>y x. dist_from_center n y x \<le> thr)"

text \<open>\<^verbatim>\<open>data[~circular_mask] = 0\<close> on arrays of one shape.\<close>

definition zero_outside :: "bool grid \<Rightarrow> cell grid \<Rightarrow> cell grid" where
  "zero_outside cmask data =
     map2 (\<lambda>mrow drow. map2 (\<lambda>inside c. if inside then c else Finite 0) mrow drow) cmask data"

definition init_state ::
  "env \<Rightarrow> mode \<Rightarrow> settings \<Rightarrow> error + (real \<times> bool grid \<times> field_collection)" where
  "init_state env m s =
     (case truediv 1 (ZOOM_FACTOR s) of
        Inl e \<Rightarrow> Inl e
      | Inr RADIUS \<Rightarrow>
          let n = RESOLUTION s;
              u = grid_of n (\<lambda>y x. Finite (m_a m))
          in (case truediv (m_b m) (m_a m) of
                Inl e \<Rightarrow> Inl e
              | Inr ratio \<Rightarrow>
                  let v = grid_of n
                            (\<lambda>y x. Finite (fadd ratio (fmul (rnd (1 / 10)) (random_normal env y x))))
                  in (case mask_threshold RADIUS n of
                        Inl e \<Rightarrow> Inl e
                      | Inr thr \<Rightarrow>
                          let cmask = circular_mask n thr;
                              u' = (if FIXED_BOUNDARY s then zero_outside cmask u else u);
                              v' = (if FIXED_BOUNDARY s then zero_outside cmask v else v)
                          in Inr (RADIUS, cmask,
                                  \<lparr>grid_radius = RADIUS, grid_shape = n,
                                   grid_periodic = (\<not> FIXED_BOUNDARY s),
                                   u_data = u', v_data = v'\<rparr>))))"

subsection \<open>Solving and scanning the snapshots (lines 109-117)\<close>

fun scan_storage :: "env \<Rightarrow> string \<Rightarrow> snapshot list \<Rightarrow> world \<Rightarrow> world \<times> (error + unit)" where
  "scan_storage env title [] w = (w, Inr ())"
| "scan_storage env title ((time_point, u, v) # rest) w =
     (case check_for_invalid_values (u, v) title time_point w of
        (w1, True) \<Rightarrow>
          (print_debug_info env (u, v) title time_point w1,
           Inl (ValueError (Invalid_values_encountered title time_point)))
      | (w1, False) \<Rightarrow> scan_storage env title rest w1)"

text \<open>
  One call of \<^verbatim>\<open>eq.solve\<close>: the solver is run on the arguments it is given, and the same
  \<^verbatim>\<open>t_range\<close> and \<^verbatim>\<open>dt\<close> are entered in the record of solver calls.
\<close>

definition call_solve ::
  "env \<Rightarrow> pde \<Rightarrow> field_collection \<Rightarrow> real \<Rightarrow> real \<Rightarrow> world \<Rightarrow>
   world \<times> (error + snapshot list)" where
  "call_solve env eq state t_range step w =
     (w\<lparr>solved := solved w @ [(t_range, step)]\<rparr>, solve env eq state t_range step)"

definition try_solve ::
  "env \<Rightarrow> mode \<Rightarrow> settings \<Rightarrow> field_collection \<Rightarrow> world \<Rightarrow> world \<times> (error + snapshot list)" where
  "try_solve env m s state w =
     (case call_solve env (PDE (m_d0 m) (m_a m) (m_b m) (m_d1 m)) state (T_MAX s) (DT s) w of
        (w1, Inl e) \<Rightarrow> (w1, Inl e)
      | (w1, Inr storage) \<Rightarrow>
          (case scan_storage env (m_title m) storage w1 of
             (w2, Inl e) \<Rightarrow> (w2, Inl e)
           | (w2, Inr _) \<Rightarrow> (w2, Inr storage)))"

text \<open>\<^verbatim>\<open>except (RuntimeWarning, ValueError) as e\<close>, and \<^verbatim>\<open>str(e)\<close>.\<close>

fun caught :: "error \<Rightarrow> bool" where
  "caught (RuntimeWarning _) = True"
| "caught (ValueError _) = True"
| "caught _ = False"

fun exn_str :: "error \<Rightarrow> exn_text" where
  "exn_str ZeroDivisionError = Text ''division by zero''"
| "exn_str (ValueError t) = t"
| "exn_str (RuntimeWarning t) = t"
| "exn_str (OtherError t) = t"

subsection \<open>Rendering the frames (lines 119-158)\<close>

definition masked_where_outside :: "bool grid \<Rightarrow> cell grid \<Rightarrow> cell option grid" where
  "masked_where_outside cmask data =
     map2 (\<lambda>mrow drow. map2 (\<lambda>inside c. if inside then Some c else None) mrow drow) cmask data"

definition frame_name :: "nat \<Rightarrow> string" where
  "frame_name frame_idx = ''frame_'' @ format_04d frame_idx @ ''.png''"

definition make_figure :: "mode \<Rightarrow> settings \<Rightarrow> real \<Rightarrow> bool grid \<Rightarrow> snapshot \<Rightarrow> figure" where
  "make_figure m s RADIUS cmask snap =
     (case snap of (time, u, v) \<Rightarrow>
        \<lparr>u_layer = masked_where_outside cmask u,
         v_layer = masked_where_outside cmask v,
         fig_cmaps = (U_COLOR s, V_COLOR s),
         fig_vmin = COLOR_VMIN s,
         fig_vmax = COLOR_VMAX s,
         fig_extent = RADIUS,
         fig_title = m_title m,
         fig_params = (m_a m, m_b m, m_d0 m, m_d1 m),
         fig_description = m_description m\<rparr>)"

fun render_frames ::
  "env \<Rightarrow> mode \<Rightarrow> settings \<Rightarrow> real \<Rightarrow> bool grid \<Rightarrow> nat \<Rightarrow> snapshot list \<Rightarrow>
   world \<times> (nat \<times> nat) option \<Rightarrow> world \<times> (nat \<times> nat) option" where
  "render_frames env m s RADIUS cmask frame_idx [] st = st"
| "render_frames env m s RADIUS cmask frame_idx (snap # rest) (w, wh) =
     (let frame_path = frame_name frame_idx;
          w1 = w\<lparr>frames :=
                   write_file frame_path (savefig env (make_figure m s RADIUS cmask snap)) (frames w)\<rparr>;
          w2 = logging INFO (Saved_frame frame_idx (m_title m) (fst snap)) w1;
          wh' = (case wh of
                   Some dims \<Rightarrow> Some dims
                 | None \<Rightarrow>
                     (case imread (frames w2) frame_path of
                        None \<Rightarrow> None
                      | Some first_frame \<Rightarrow> Some (img_width first_frame, img_height first_frame)))
      in render_frames env m s RADIUS cmask (Suc frame_idx) rest (w2, wh'))"

subsection \<open>Encoding the video (lines 160-179)\<close>

fun write_frames :: "string list \<Rightarrow> world \<times> video \<Rightarrow> world \<times> video" where
  "write_frames [] st = st"
| "write_frames (frame_file # rest) (w, out) =
     (case imread (frames w) frame_file of
        None \<Rightarrow> write_frames rest (logging WARNING (Error_reading_frame frame_file) w, out)
      | Some frame \<Rightarrow> write_frames rest (w, out\<lparr>vid_frames := vid_frames out @ [frame]\<rparr>))"

definition encode_video :: "mode \<Rightarrow> settings \<Rightarrow> world \<Rightarrow> world \<times> (error + unit)" where
  "encode_video m s w =
     (case imread (frames w) ''frame_0000.png'' of
        None \<Rightarrow>
          (w, Inl (ValueError
                     (Text ''First frame not found. Check if the frames are being saved correctly.'')))
      | Some first_frame \<Rightarrow>
          let frame_size = (img_width first_frame, img_height first_frame);
              out = \<lparr>vid_fps = FRAME_RATE s, vid_size = frame_size, vid_frames = []\<rparr>;
              frame_files = sort (filter (\<lambda>f. endswith f ''.png'') (listdir (frames w)))
          in (case write_frames frame_files (w, out) of
                (w1, out1) \<Rightarrow>
                  (logging INFO (Video_saved (m_filename m))
                     (w1\<lparr>videos := write_file (m_filename m) out1 (videos w1)\<rparr>),
                   Inr ())))"

subsection \<open>The whole function\<close>

definition process_mode :: "env \<Rightarrow> mode \<Rightarrow> settings \<Rightarrow> world \<Rightarrow> world \<times> (error + unit)" where
  "process_mode env m s w =
     (let w0 = logging INFO (Starting_mode (m_title m)) w
      in case init_state env m s of
           Inl e \<Rightarrow> (w0, Inl e)
         | Inr (RADIUS, cmask, state) \<Rightarrow>
             let w1 = logging DEBUG (Frames_directory_created (m_title m)) w0
             in (case try_solve env m s state w1 of
                   (w2, Inl e) \<Rightarrow>
                     if caught e
                     then (logging ERROR (Warning_or_error (m_title m) (exn_str e)) w2, Inr ())
                     else (w2, Inl e)
                 | (w2, Inr storage) \<Rightarrow>
                     let w3 = fst (render_frames env m s RADIUS cmask 0 storage (w2, None));
                         w4 = logging INFO (Finished_processing (m_title m)) w3
                     in encode_video m s w4))"

section \<open>\<^verbatim>\<open>main\<close> (lines 181-237)\<close>

text \<open>
  \<open>main\<close> takes the loaded settings and the listing of the results directory. It returns
  the run number, the listing after the run directory is made, and the argument tuples
  handed to the worker pool. Its log lines and the settings echo are left out.
\<close>

definition makedirs :: "string \<Rightarrow> string list \<Rightarrow> string list" where
  "makedirs name listing = (if name \<in> set listing then listing else listing @ [name])"

definition update_settings :: "json_settings \<Rightarrow> real \<Rightarrow> settings" where
  "update_settings js DT' =
     json_settings.extend js
       (settings.fields (resolution js) (frame_rate js) (t_max js) DT' (color_vmin js)
          (color_vmax js) (u_color js) (v_color js) (fixed_boundary js) (zoom_factor js))"

definition next_render_number :: "string list \<Rightarrow> nat" where
  "next_render_number listing =
     (let render_numbers = map py_int (filter isdigit listing)
      in max_default render_numbers 0 + 1)"

record main_result =
  render_number :: nat
  results_listing :: "string list"
  tasks :: "(mode \<times> settings) list"

definition main :: "json_settings \<Rightarrow> string list \<Rightarrow> error + main_result" where
  "main js listing =
     (case truediv (dt js) 100 of
        Inl e \<Rightarrow> Inl e
      | Inr DT' \<Rightarrow>
          let settings = update_settings js DT';
              n = next_render_number listing;
              render_dir = py_str n
          in Inr \<lparr>render_number = n,
                  results_listing = makedirs render_dir listing,
                  tasks = map (\<lambda>mode. (mode, settings)) (modes js)\<rparr>)"

section \<open>Reference points and sample inputs\<close>

text \<open>
  The world in which \<open>process_mode\<close> reaches line 160, after a solve whose snapshots all
  passed the scan: the two opening log lines, the solver call, the rendered frames and the
  closing log line.
\<close>

definition rendered ::
  "env \<Rightarrow> mode \<Rightarrow> settings \<Rightarrow> real \<Rightarrow> bool grid \<Rightarrow> snapshot list \<Rightarrow> world \<Rightarrow> world" where
  "rendered env m s RADIUS cmask storage w =
     logging INFO (Finished_processing (m_title m))
       (fst (render_frames env m s RADIUS cmask 0 storage
          ((logging DEBUG (Frames_directory_created (m_title m))
              (logging INFO (Starting_mode (m_title m)) w))
             \<lparr>solved := solved w @ [(T_MAX s, DT s)]\<rparr>, None)))"

text \<open>Sample inputs on which the theorems below are exercised.\<close>

definition new_world :: world where
  "new_world = \<lparr>frames = [], videos = [], log_lines = [], solved = []\<rparr>"

definition sample_image :: image where
  "sample_image = \<lparr>img_height = 1200, img_width = 1500, img_layers = 3, img_pixels = []\<rparr>"

definition sample_env :: "snapshot list \<Rightarrow> env" where
  "sample_env storage =
     \<lparr>random_normal = (\<lambda>y x. 0),
      solve = (\<lambda>eq state t_range step. Inr storage),
      savefig = (\<lambda>fig. Png sample_image),
      np_min = (\<lambda>cs. NaN), np_max = (\<lambda>cs. NaN),
      np_mean = (\<lambda>cs. NaN), np_std = (\<lambda>cs. NaN)\<rparr>"

definition sample_mode :: "real \<Rightarrow> mode" where
  "sample_mode a =
     \<lparr>m_title = ''Spots'', m_a = a, m_b = 3, m_d0 = 1, m_d1 = 10,
      m_filename = ''spots.mp4'', m_description = ''Turing spots''\<rparr>"

definition sample_json :: "bool \<Rightarrow> json_settings" where
  "sample_json fixed =
     \<lparr>resolution = 8, frame_rate = 30, t_max = 20, dt = 1, color_vmin = 0, color_vmax = 5,
      u_color = ''viridis'', v_color = ''plasma'', fixed_boundary = fixed, zoom_factor = 1,
      modes = [sample_mode 1]\<rparr>"

definition sample_settings :: "bool \<Rightarrow> settings" where
  "sample_settings fixed = update_settings (sample_json fixed) (rnd (1 / 100))"

definition sample_snapshot :: "real \<Rightarrow> cell \<Rightarrow> snapshot" where
  "sample_snapshot time c = (time, grid_of 8 (\<lambda>y x. Finite 1), grid_of 8 (\<lambda>y x. c))"

definition sample_frames :: "disk_file directory" where
  "sample_frames =
     [(''frame_0002.png'', Png (sample_image\<lparr>img_pixels := [2]\<rparr>)),
      (''notes.txt'', Unreadable),
      (''frame_0001.png'', Unreadable),
      (''frame_0000.png'', Png (sample_image\<lparr>img_pixels := [0]\<rparr>))]"

text \<open>A frames directory whose first frame cannot be decoded while the second can.\<close>

definition frames_bad_first :: "disk_file directory" where
  "frames_bad_first =
     [(''frame_0000.png'', Unreadable),
      (''frame_0001.png'', Png sample_image)]"

text \<open>
  A solver that stops with an error of its own when it is called with the time step
  \<open>expected\<close>, and returns no snapshots for any other step.
\<close>

definition probe_env :: "real \<Rightarrow> env" where
  "probe_env expected =
     (sample_env [])
       \<lparr>solve := (\<lambda>eq state t_range step.
                    if step = expected then Inl (OtherError (Text ''called with the expected step''))
                    else Inr [])\<rparr>"

text \<open>The mask that \<open>init_state\<close> computes, when it computes one.\<close>

definition computed_mask :: "env \<Rightarrow> mode \<Rightarrow> settings \<Rightarrow> bool grid option" where
  "computed_mask env m s =
     (case init_state env m s of Inl e \<Rightarrow> None | Inr (RADIUS, cmask, state) \<Rightarrow> Some cmask)"

text \<open>The sample settings on a 100 by 100 grid with a chosen zoom factor.\<close>

definition zoomed_settings :: "real \<Rightarrow> settings" where
  "zoomed_settings zoom =
     update_settings ((sample_json True)\<lparr>resolution := 100, zoom_factor := zoom\<rparr>) (rnd (1 / 100))"

section \<open>Rounding to double precision\<close>

lemma pow2_powr: "pow2 e = 2 powr (real_of_int e)"
  by (simp add: pow2_def powr_real_of_int inverse_eq_divide)

lemma pow2_pos: "0 < pow2 e"
  by (simp add: pow2_powr)

lemma pow2_add: "pow2 (a + b) = pow2 a * pow2 b"
  by (simp add: pow2_powr powr_add)

lemma pow2_less_iff: "pow2 a < pow2 b \<longleftrightarrow> a < b"
  by (simp add: pow2_powr)

lemma pow2_nonneg_int: "0 \<le> e \<Longrightarrow> pow2 e = of_int (2 ^ nat e)"
  by (simp add: pow2_def)

lemma bitlen_pos: "0 < n \<Longrightarrow> 1 \<le> bitlen n"
proof (rule ccontr)
  assume n: "0 < n" and "\<not> 1 \<le> bitlen n"
  then have "nat (bitlen n) = 0" by simp
  with bitlen_bounds [OF n] have "n < 1" by simp
  with n show False by simp
qed

lemma expo_bounds:
  assumes "x \<noteq> 0"
  shows "pow2 (expo x) \<le> \<bar>x\<bar> \<and> \<bar>x\<bar> < pow2 (expo x + 1)"
proof (cases "1 \<le> \<bar>x\<bar>")
  case True
  define n where "n = \<lfloor>\<bar>x\<bar>\<rfloor>"
  have n: "0 < n" using True by (simp add: n_def)
  have b: "2 ^ nat (bitlen n - 1) \<le> n" "n < 2 ^ nat (bitlen n)"
    using bitlen_bounds [OF n] by auto
  have bl: "1 \<le> bitlen n" using n by (rule bitlen_pos)
  have e: "expo x = bitlen n - 1" using True by (simp add: expo_def n_def)
  have "real_of_int (2 ^ nat (bitlen n - 1)) \<le> real_of_int n" using b(1) by linarith
  also have "\<dots> \<le> \<bar>x\<bar>" by (simp add: n_def)
  finally have lo: "pow2 (expo x) \<le> \<bar>x\<bar>" using bl by (simp add: e pow2_def)
  have "\<bar>x\<bar> < real_of_int (n + 1)" unfolding n_def by linarith
  also have "\<dots> \<le> real_of_int (2 ^ nat (bitlen n))" using b(2) by linarith
  finally have hi: "\<bar>x\<bar> < pow2 (expo x + 1)" using bl by (simp add: e pow2_def)
  from lo hi show ?thesis by simp
next
  case False
  define y where "y = 1 / \<bar>x\<bar>"
  define n where "n = \<lceil>y\<rceil> - 1"
  have x: "0 < \<bar>x\<bar>" "\<bar>x\<bar> < 1" using assms False by auto
  have y: "1 < y" using x by (simp add: y_def)
  have n: "0 < n" using y unfolding n_def by linarith
  have ny: "real_of_int n < y" "y \<le> real_of_int (n + 1)" unfolding n_def by linarith+
  have b: "2 ^ nat (bitlen n - 1) \<le> n" "n < 2 ^ nat (bitlen n)"
    using bitlen_bounds [OF n] by auto
  have bl: "1 \<le> bitlen n" using n by (rule bitlen_pos)
  have e: "expo x = - bitlen n" using False by (simp add: expo_def n_def y_def)
  have xy: "\<bar>x\<bar> = 1 / y" using x by (simp add: y_def)
  have "y \<le> real_of_int (2 ^ nat (bitlen n))" using ny(2) b(2) by linarith
  then have "1 / real_of_int (2 ^ nat (bitlen n)) \<le> 1 / y"
    using y by (intro divide_left_mono) auto
  then have lo: "pow2 (expo x) \<le> \<bar>x\<bar>" using bl by (simp add: e pow2_def xy)
  have p: "0 < real_of_int (2 ^ nat (bitlen n - 1))" by simp
  have "real_of_int (2 ^ nat (bitlen n - 1)) < y" using ny(1) b(1) by linarith
  then have "1 / y < 1 / real_of_int (2 ^ nat (bitlen n - 1))"
    using p y by (intro divide_strict_left_mono) auto
  moreover have "pow2 (expo x + 1) = 1 / real_of_int (2 ^ nat (bitlen n - 1))"
  proof (cases "bitlen n = 1")
    case True then show ?thesis by (simp add: e pow2_def)
  next
    case False
    with bl have "1 < bitlen n" by simp
    moreover have "nat (bitlen n - 1) = nat (- (1 - bitlen n))" by simp
    ultimately show ?thesis by (simp add: e pow2_def)
  qed
  ultimately have hi: "\<bar>x\<bar> < pow2 (expo x + 1)" by (simp add: xy)
  from lo hi show ?thesis by simp
qed

lemma round_half_even_of_int: "round_half_even (of_int k) = k"
  by (simp add: round_half_even_def)

lemma rnd_exact:
  assumes "n < 2 ^ 53"
  shows "rnd (of_nat n * pow2 e) = of_nat n * pow2 e"
proof (cases "n = 0")
  case True
  then show ?thesis by (simp add: rnd_def)
next
  case False
  define x where "x = real n * pow2 e"
  define E where "E = expo x"
  have xpos: "0 < x" using False pow2_pos [of e] by (simp add: x_def)
  then have xn: "x \<noteq> 0" by simp
  have "real n < real (2 ^ 53)" using assms by (simp only: of_nat_less_iff)
  then have "real n < 2 ^ 53" by simp
  then have "x < 2 ^ 53 * pow2 e" using pow2_pos [of e] by (simp add: x_def)
  also have "\<dots> = pow2 (53 + e)"
  proof -
    have "pow2 53 = 2 ^ 53" by (simp add: pow2_def)
    then show ?thesis by (simp only: pow2_add)
  qed
  finally have "x < pow2 (53 + e)" .
  moreover have "pow2 E \<le> x" using expo_bounds [OF xn] xpos by (simp add: E_def)
  ultimately have "pow2 E < pow2 (53 + e)" by linarith
  then have le: "E - 52 \<le> e" by (simp add: pow2_less_iff)
  define d where "d = e - (E - 52)"
  have d: "0 \<le> d" "e = d + (E - 52)" using le by (simp_all add: d_def)
  have pe: "pow2 e = pow2 d * pow2 (E - 52)" by (simp only: d(2) pow2_add)
  have pd: "pow2 d = of_int (2 ^ nat d)" using d(1) by (rule pow2_nonneg_int)
  have "x / pow2 (E - 52) = real n * pow2 d"
    using pow2_pos [of "E - 52"] by (simp add: x_def pe)
  also have "\<dots> = of_int (int n * 2 ^ nat d)" by (simp add: pd)
  finally have q: "x / pow2 (E - 52) = of_int (int n * 2 ^ nat d)" .
  have "rnd x = of_int (round_half_even (x / pow2 (E - 52))) * pow2 (E - 52)"
    using xn by (simp add: rnd_def E_def)
  also have "\<dots> = of_int (int n * 2 ^ nat d) * pow2 (E - 52)"
    by (simp only: q round_half_even_of_int)
  also have "\<dots> = real n * pow2 d * pow2 (E - 52)" by (simp add: pd)
  also have "\<dots> = x" by (simp add: x_def pe)
  finally show ?thesis by (simp add: x_def)
qed

lemma rnd_small: "rnd 0 = 0" "rnd 1 = 1" "rnd 2 = 2" "rnd 3 = 3" "rnd 4 = 4" "rnd 5 = 5"
  by code_simp+

lemma sample_threshold: "mask_threshold 1 8 = Inr 4"
  by (simp add: mask_threshold_def truediv_def fmul_def rnd_small)

lemma init_state_sample:
  "init_state (sample_env storage) (sample_mode 1) (sample_settings fixed) =
     Inr (1, circular_mask 8 4,
          \<lparr>grid_radius = 1, grid_shape = 8, grid_periodic = (\<not> fixed),
           u_data = (if fixed then zero_outside (circular_mask 8 4) (grid_of 8 (\<lambda>y x. Finite 1))
                     else grid_of 8 (\<lambda>y x. Finite 1)),
           v_data = (if fixed then zero_outside (circular_mask 8 4) (grid_of 8 (\<lambda>y x. Finite 3))
                     else grid_of 8 (\<lambda>y x. Finite 3))\<rparr>)"
  by (simp add: init_state_def sample_env_def sample_mode_def sample_settings_def sample_json_def
      update_settings_def json_settings.extend_def settings.fields_def
      truediv_def fmul_def fadd_def rnd_small sample_threshold Let_def)

section \<open>Effects of the helpers\<close>

lemma logging_simps [simp]:
  "frames (logging lvl msg w) = frames w"
  "videos (logging lvl msg w) = videos w"
  "solved (logging lvl msg w) = solved w"
  "log_lines (logging lvl msg w) = log_lines w @ [(lvl, msg)]"
  by (simp_all add: logging_def)

lemma scan_storage_valid:
  "\<not> list_ex (\<lambda>snap. invalid (snd snap)) storage \<Longrightarrow> scan_storage env title storage w = (w, Inr ())"
  by (induction storage arbitrary: w) (auto simp: check_for_invalid_values_def)

lemma scan_storage_invalid:
  "list_ex (\<lambda>snap. invalid (snd snap)) storage \<Longrightarrow>
   \<exists>t u v. find (\<lambda>snap. invalid (snd snap)) storage = Some (t, u, v) \<and>
     scan_storage env title storage w =
       (print_debug_info env (u, v) title t (logging ERROR (Invalid_values title t) w),
        Inl (ValueError (Invalid_values_encountered title t)))"
proof (induction storage arbitrary: w)
  case Nil
  then show ?case by simp
next
  case (Cons snap storage)
  obtain t u v where snap: "snap = (t, u, v)" by (cases snap) auto
  show ?case
  proof (cases "invalid (u, v)")
    case True
    then show ?thesis by (simp add: snap check_for_invalid_values_def)
  next
    case False
    with Cons.prems have "list_ex (\<lambda>snap. invalid (snd snap)) storage" by (simp add: snap)
    from Cons.IH [OF this] False show ?thesis by (simp add: snap check_for_invalid_values_def)
  qed
qed

lemma process_mode_rendered:
  assumes "init_state env m s = Inr (RADIUS, cmask, state)"
    and "solve env (PDE (m_d0 m) (m_a m) (m_b m) (m_d1 m)) state (T_MAX s) (DT s) = Inr storage"
    and "\<not> list_ex (\<lambda>snap. invalid (snd snap)) storage"
  shows "process_mode env m s w = encode_video m s (rendered env m s RADIUS cmask storage w)"
  using assms
  by (simp add: process_mode_def try_solve_def call_solve_def scan_storage_valid rendered_def Let_def)

lemma init_state_a_zero: "m_a m = 0 \<Longrightarrow> init_state env m s = Inl ZeroDivisionError"
  by (simp add: init_state_def truediv_def Let_def)

lemma invalid_sample: "invalid (snd (sample_snapshot t NaN))" "\<not> invalid (snd (sample_snapshot t (Finite x)))"
proof -
  have "NaN \<in> set (cells (snd (sample_snapshot t NaN)))"
    by (auto simp: sample_snapshot_def cells_def grid_of_def image_iff intro!: exI [of _ "0::nat"])
  then show "invalid (snd (sample_snapshot t NaN))"
    unfolding invalid_def list_ex_iff using isnan.simps(1) by blast
  show "\<not> invalid (snd (sample_snapshot t (Finite x)))"
    by (auto simp: sample_snapshot_def invalid_def cells_def grid_of_def list_ex_iff)
qed

section \<open>Decimal strings and frame names\<close>

declare py_str.simps [simp del]

lemma of_char_zero_nine: "of_char CHR ''0'' = (48::nat)" "of_char CHR ''9'' = (57::nat)"
  by simp_all

lemma isdigit_char_iff: "isdigit_char c \<longleftrightarrow> 48 \<le> (of_char c :: nat) \<and> (of_char c :: nat) \<le> 57"
  by (simp add: isdigit_char_def less_eq_char_def)

lemma of_char_digit_char: "d < 10 \<Longrightarrow> (of_char (digit_char d) :: nat) = 48 + d"
  by (simp add: digit_char_def)

lemma digit_val_digit_char: "d < 10 \<Longrightarrow> digit_val (digit_char d) = d"
  by (simp add: digit_val_def of_char_digit_char)

lemma isdigit_char_digit_char: "d < 10 \<Longrightarrow> isdigit_char (digit_char d)"
  by (simp add: isdigit_char_iff of_char_digit_char)



lemma py_int_snoc: "py_int (xs @ [c]) = 10 * py_int xs + digit_val c"
  by (simp add: py_int_def)

lemma py_int_py_str: "py_int (py_str n) = n"
proof (induction n rule: py_str.induct)
  case (1 n)
  show ?case
  proof (cases "n < 10")
    case True
    then show ?thesis by (simp add: py_str.simps [of n] py_int_def digit_val_digit_char)
  next
    case False
    with 1 have "py_int (py_str (n div 10)) = n div 10" by simp
    with False show ?thesis
      by (simp add: py_str.simps [of n] py_int_snoc digit_val_digit_char)
  qed
qed

lemma digits_py_str: "list_all isdigit_char (py_str n)"
proof (induction n rule: py_str.induct)
  case (1 n)
  then show ?case
    by (cases "n < 10") (simp_all add: py_str.simps [of n] isdigit_char_digit_char)
qed

lemma py_str_nonempty: "py_str n \<noteq> []"
  by (simp add: py_str.simps [of n])

lemma isdigit_py_str: "isdigit (py_str n)"
  by (simp add: isdigit_def digits_py_str py_str_nonempty)

lemma py_int_zeros: "py_int (replicate k CHR ''0'' @ s) = py_int s"
proof -
  have "foldl (\<lambda>acc c. 10 * acc + digit_val c) 0 (replicate k CHR ''0'') = 0"
    by (induction k) (simp_all add: digit_val_def)
  then show ?thesis by (simp add: py_int_def)
qed

lemma py_int_format_04d: "py_int (format_04d n) = n"
  by (simp add: format_04d_def Let_def py_int_zeros py_int_py_str)

lemma format_04d_inj: "format_04d i = format_04d j \<Longrightarrow> i = j"
  by (metis py_int_format_04d)

lemma frame_name_inj: "frame_name i = frame_name j \<longleftrightarrow> i = j"
  by (auto simp: frame_name_def dest: format_04d_inj)










lemma digit_char_values:
  "digit_char 0 = CHR ''0''" "digit_char 1 = CHR ''1''" "digit_char 2 = CHR ''2''"
  "digit_char 3 = CHR ''3''" "digit_char 4 = CHR ''4''" "digit_char 5 = CHR ''5''"
  "digit_char 6 = CHR ''6''" "digit_char 7 = CHR ''7''" "digit_char 8 = CHR ''8''"
  "digit_char 9 = CHR ''9''" "digit_char (Suc 0) = CHR ''1''"
  by code_simp+

lemma replicate_small: "replicate 3 c = [c, c, c]" "replicate 2 c = [c, c]"
  by (simp_all add: numeral_3_eq_3 numeral_2_eq_2)

lemma py_str_values:
  "py_str 0 = ''0''" "py_str 1 = ''1''" "py_str 2 = ''2''" "py_str 3 = ''3''" "py_str 7 = ''7''"
  "py_str 8 = ''8''" "py_str 9 = ''9''" "py_str 10 = ''10''" "py_str 9999 = ''9999''"
  "py_str 10000 = ''10000''" "py_str (Suc 0) = ''1''"
  by (simp_all add: py_str.simps digit_char_values)

lemma frame_name_values:
  "frame_name 0 = ''frame_0000.png''" "frame_name 1 = ''frame_0001.png''"
  "frame_name 2 = ''frame_0002.png''"
  "frame_name 9 = ''frame_0009.png''" "frame_name 10 = ''frame_0010.png''"
  "frame_name 9999 = ''frame_9999.png''" "frame_name 10000 = ''frame_10000.png''"
  "frame_name (Suc 0) = ''frame_0001.png''"
  by (simp_all add: frame_name_def format_04d_def py_str_values replicate_small)

section \<open>Run numbers\<close>

lemma foldl_max_ge: "a \<le> foldl max a xs" for a :: nat
  by (induction xs arbitrary: a) (auto intro: order_trans [OF max.cobounded1])

lemma foldl_max_mem_ge: "x \<in> set xs \<Longrightarrow> x \<le> foldl max a xs" for a :: nat
proof (induction xs arbitrary: a)
  case Nil
  then show ?case by simp
next
  case (Cons y ys)
  show ?case
  proof (cases "x = y")
    case True
    have "y \<le> max a y" by simp
    also have "\<dots> \<le> foldl max (max a y) ys" by (rule foldl_max_ge)
    finally show ?thesis using True by simp
  next
    case False
    with Cons show ?thesis by simp
  qed
qed

lemma foldl_max_in: "foldl max a xs \<in> insert a (set xs)" for a :: nat
  by (induction xs arbitrary: a) (auto simp: max_def)

lemma max_default_ge: "x \<in> set xs \<Longrightarrow> x \<le> max_default xs d"
  by (cases xs) (auto simp: max_default_def foldl_max_ge foldl_max_mem_ge)

lemma max_default_eqI:
  assumes "n \<in> set xs" and "\<forall>x\<in>set xs. x \<le> n"
  shows "max_default xs d = n"
proof -
  from assms(1) have "xs \<noteq> []" by auto
  then have "max_default xs d \<in> set xs"
    using foldl_max_in by (cases xs) (auto simp: max_default_def)
  with assms(2) have "max_default xs d \<le> n" by simp
  moreover have "n \<le> max_default xs d" using assms(1) by (rule max_default_ge)
  ultimately show ?thesis by simp
qed

lemma next_render_number_gt:
  "name \<in> set listing \<Longrightarrow> isdigit name \<Longrightarrow> py_int name < next_render_number listing"
proof -
  assume "name \<in> set listing" "isdigit name"
  then have "py_int name \<in> set (map py_int (filter isdigit listing))" by simp
  then have "py_int name \<le> max_default (map py_int (filter isdigit listing)) 0"
    by (rule max_default_ge)
  then show ?thesis by (simp add: next_render_number_def)
qed

lemma next_render_number_fresh: "py_str (next_render_number listing) \<notin> set listing"
proof
  assume "py_str (next_render_number listing) \<in> set listing"
  from next_render_number_gt [OF this isdigit_py_str] show False by (simp add: py_int_py_str)
qed

lemma next_render_number_after:
  assumes "set listing' = insert (py_str (next_render_number listing)) (set listing)"
  shows "next_render_number listing' = next_render_number listing + 1"
proof -
  let ?n = "next_render_number listing"
  have "py_str ?n \<in> set (filter isdigit listing')" using assms isdigit_py_str [of ?n] by simp
  then have "py_int (py_str ?n) \<in> set (map py_int (filter isdigit listing'))"
    by (simp only: set_map image_eqI)
  then have a: "?n \<in> set (map py_int (filter isdigit listing'))" by (simp only: py_int_py_str)
  have b: "\<forall>x\<in>set (map py_int (filter isdigit listing')). x \<le> ?n"
  proof
    fix x
    assume "x \<in> set (map py_int (filter isdigit listing'))"
    then obtain name where name: "name \<in> set listing'" "isdigit name" "x = py_int name" by auto
    show "x \<le> ?n"
    proof (cases "name = py_str ?n")
      case True
      with name show ?thesis by (simp add: py_int_py_str)
    next
      case False
      with name assms have "name \<in> set listing" by simp
      from next_render_number_gt [OF this name(2)] name(3) show ?thesis by simp
    qed
  qed
  from a b have "max_default (map py_int (filter isdigit listing')) 0 = ?n"
    by (rule max_default_eqI)
  then show ?thesis by (simp add: next_render_number_def [of listing'])
qed

lemma main_Inr:
  "main js listing =
     Inr \<lparr>render_number = next_render_number listing,
          results_listing = makedirs (py_str (next_render_number listing)) listing,
          tasks = map (\<lambda>mode. (mode, update_settings js (rnd (dt js / 100)))) (modes js)\<rparr>"
  by (simp add: main_def truediv_def Let_def)

lemma set_makedirs: "set (makedirs name listing) = insert name (set listing)"
  by (auto simp: makedirs_def)

lemma process_mode_aborted:
  assumes "init_state env m s = Inr (RADIUS, cmask, state)"
    and "solve env (PDE (m_d0 m) (m_a m) (m_b m) (m_d1 m)) state (T_MAX s) (DT s) = Inr storage"
    and "list_ex (\<lambda>snap. invalid (snd snap)) storage"
  shows "\<exists>t u v. find (\<lambda>snap. invalid (snd snap)) storage = Some (t, u, v) \<and>
     process_mode env m s w =
       (w\<lparr>log_lines := log_lines w @
            [(INFO, Starting_mode (m_title m)),
             (DEBUG, Frames_directory_created (m_title m)),
             (ERROR, Invalid_values (m_title m) t),
             (DEBUG, Debug_info_for (m_title m) t),
             (DEBUG, Min_Max (np_min env (cells (u, v))) (np_max env (cells (u, v)))),
             (DEBUG, Mean_Std (np_mean env (cells (u, v))) (np_std env (cells (u, v)))),
             (ERROR, Warning_or_error (m_title m) (Invalid_values_encountered (m_title m) t))],
           solved := solved w @ [(T_MAX s, DT s)]\<rparr>,
        Inr ()) \<and>
     frames (fst (process_mode env m s w)) = frames w \<and>
     videos (fst (process_mode env m s w)) = videos w"
proof -
  define w1 where "w1 = (logging DEBUG (Frames_directory_created (m_title m))
     (logging INFO (Starting_mode (m_title m)) w))\<lparr>solved := solved w @ [(T_MAX s, DT s)]\<rparr>"
  from scan_storage_invalid [OF assms(3), of env "m_title m" w1]
  obtain t u v where f: "find (\<lambda>snap. invalid (snd snap)) storage = Some (t, u, v)"
    and sc: "scan_storage env (m_title m) storage w1 =
       (print_debug_info env (u, v) (m_title m) t (logging ERROR (Invalid_values (m_title m) t) w1),
        Inl (ValueError (Invalid_values_encountered (m_title m) t)))"
    by blast
  have "process_mode env m s w =
          (logging ERROR (Warning_or_error (m_title m) (Invalid_values_encountered (m_title m) t))
             (print_debug_info env (u, v) (m_title m) t
                (logging ERROR (Invalid_values (m_title m) t) w1)), Inr ())"
    using assms(1,2) sc by (simp add: process_mode_def try_solve_def call_solve_def Let_def w1_def)
  then have "process_mode env m s w =
       (w\<lparr>log_lines := log_lines w @
            [(INFO, Starting_mode (m_title m)),
             (DEBUG, Frames_directory_created (m_title m)),
             (ERROR, Invalid_values (m_title m) t),
             (DEBUG, Debug_info_for (m_title m) t),
             (DEBUG, Min_Max (np_min env (cells (u, v))) (np_max env (cells (u, v)))),
             (DEBUG, Mean_Std (np_mean env (cells (u, v))) (np_std env (cells (u, v)))),
             (ERROR, Warning_or_error (m_title m) (Invalid_values_encountered (m_title m) t))],
           solved := solved w @ [(T_MAX s, DT s)]\<rparr>,
        Inr ())"
    by (simp add: w1_def print_debug_info_def logging_def Let_def)
  with f show ?thesis by simp
qed

subsection \<open>Directories\<close>

lemma map_of_filter_other:
  "map_of (filter (\<lambda>entry. fst entry \<noteq> name) d) x = (if x = name then None else map_of d x)"
  by (induction d) auto

lemma map_of_write_file: "map_of (write_file name f d) x = (if x = name then Some f else map_of d x)"
  by (simp add: write_file_def map_of_filter_other)

lemma imread_write_file_other: "x \<noteq> name \<Longrightarrow> imread (write_file name f d) x = imread d x"
  by (simp add: imread_def map_of_write_file)

lemma distinct_listdir: "distinct (listdir d)"
  by (simp add: listdir_def)

subsection \<open>Effects of the loops\<close>

lemma print_debug_info_simps [simp]:
  "frames (print_debug_info env d title t w) = frames w"
  "videos (print_debug_info env d title t w) = videos w"
  "solved (print_debug_info env d title t w) = solved w"
  by (simp_all add: print_debug_info_def Let_def)

lemma scan_storage_keeps:
  "scan_storage env title storage w = (w', r) \<Longrightarrow>
   frames w' = frames w \<and> videos w' = videos w \<and> solved w' = solved w"
proof (induction storage arbitrary: w)
  case Nil
  then show ?case by auto
next
  case (Cons snap storage)
  obtain t u v where snap: "snap = (t, u, v)" by (cases snap) auto
  show ?case
  proof (cases "invalid (u, v)")
    case True
    with Cons.prems show ?thesis by (auto simp: snap check_for_invalid_values_def)
  next
    case False
    with Cons.prems have "scan_storage env title storage w = (w', r)"
      by (simp add: snap check_for_invalid_values_def)
    then show ?thesis by (rule Cons.IH)
  qed
qed

lemma render_frames_keeps:
  "videos (fst (render_frames env m s RADIUS cmask k snaps (w, wh))) = videos w \<and>
   solved (fst (render_frames env m s RADIUS cmask k snaps (w, wh))) = solved w"
  by (induction snaps arbitrary: k w wh) (simp_all add: Let_def)

lemma render_frames_miss:
  "\<forall>i<length snaps. name \<noteq> frame_name (k + i) \<Longrightarrow>
   map_of (frames (fst (render_frames env m s RADIUS cmask k snaps (w, wh)))) name =
   map_of (frames w) name"
proof (induction snaps arbitrary: k w wh)
  case Nil
  then show ?case by simp
next
  case (Cons snap snaps)
  from Cons.prems have k: "name \<noteq> frame_name k" by force
  from Cons.prems have rest: "\<forall>i<length snaps. name \<noteq> frame_name (Suc k + i)" by force
  show ?case
    using Cons.IH [OF rest] k by (simp add: Let_def map_of_write_file)
qed

lemma render_frames_hit:
  "i < length snaps \<Longrightarrow>
   map_of (frames (fst (render_frames env m s RADIUS cmask k snaps (w, wh)))) (frame_name (k + i)) =
   Some (savefig env (make_figure m s RADIUS cmask (snaps ! i)))"
proof (induction snaps arbitrary: i k w wh)
  case Nil
  then show ?case by simp
next
  case (Cons snap snaps)
  show ?case
  proof (cases i)
    case 0
    have "\<forall>j<length snaps. frame_name k \<noteq> frame_name (Suc k + j)"
      by (simp add: frame_name_inj)
    from render_frames_miss [OF this] 0 show ?thesis
      by (simp add: Let_def map_of_write_file)
  next
    case (Suc i')
    with Cons.prems have "i' < length snaps" by simp
    from Cons.IH [OF this, of "Suc k"] Suc show ?thesis by (simp add: Let_def)
  qed
qed

lemma render_frames_log:
  "log_lines (fst (render_frames env m s RADIUS cmask k snaps (w, wh))) =
   log_lines w @
   map (\<lambda>i. (INFO, Saved_frame (k + i) (m_title m) (fst (snaps ! i)))) [0..<length snaps]"
proof (induction snaps arbitrary: k w wh)
  case Nil
  then show ?case by simp
next
  case (Cons snap snaps)
  have "map (\<lambda>i. (INFO, Saved_frame (k + i) (m_title m) (fst ((snap # snaps) ! i))))
          [0..<length (snap # snaps)] =
        (INFO, Saved_frame k (m_title m) (fst snap)) #
        map (\<lambda>i. (INFO, Saved_frame (Suc k + i) (m_title m) (fst (snaps ! i)))) [0..<length snaps]"
  proof -
    have e: "[0..<Suc n] = 0 # map Suc [0..<n]" for n
      by (simp add: upt_conv_Cons map_Suc_upt del: upt_Suc)
    show ?thesis unfolding length_Cons e by (simp add: o_def)
  qed
  with Cons.IH [of "Suc k"] show ?case by (simp add: Let_def)
qed

lemma write_frames_closed:
  "write_frames files (w, out) =
     (w\<lparr>log_lines := log_lines w @
          map (\<lambda>f. (WARNING, Error_reading_frame f)) (filter (\<lambda>f. imread (frames w) f = None) files)\<rparr>,
      out\<lparr>vid_frames := vid_frames out @
          map (\<lambda>f. the (imread (frames w) f)) (filter (\<lambda>f. imread (frames w) f \<noteq> None) files)\<rparr>)"
proof (induction files arbitrary: w out)
  case Nil
  then show ?case by simp
next
  case (Cons f files)
  show ?case
  proof (cases "imread (frames w) f")
    case None
    then show ?thesis by (simp add: Cons.IH logging_def)
  next
    case (Some frame)
    then show ?thesis by (simp add: Cons.IH)
  qed
qed

lemma encode_video_keeps:
  "frames (fst (encode_video m s w)) = frames w \<and> solved (fst (encode_video m s w)) = solved w"
  by (simp add: encode_video_def write_frames_closed Let_def split: option.splits)

lemma rendered_simps:
  "videos (rendered env m s RADIUS cmask storage w) = videos w"
  "solved (rendered env m s RADIUS cmask storage w) = solved w @ [(T_MAX s, DT s)]"
  "frames (rendered env m s RADIUS cmask [] w) = frames w"
  by (simp_all add: rendered_def render_frames_keeps)

lemma rendered_miss:
  "\<forall>i<length storage. name \<noteq> frame_name i \<Longrightarrow>
   map_of (frames (rendered env m s RADIUS cmask storage w)) name = map_of (frames w) name"
  using render_frames_miss [of storage name 0] by (simp add: rendered_def)

lemma rendered_hit:
  "i < length storage \<Longrightarrow>
   map_of (frames (rendered env m s RADIUS cmask storage w)) (frame_name i) =
   Some (savefig env (make_figure m s RADIUS cmask (storage ! i)))"
  using render_frames_hit [of i storage env m s RADIUS cmask 0] by (simp add: rendered_def)

lemma process_mode_solved:
  assumes "init_state env m s = Inr (RADIUS, cmask, state)"
  shows "solved (fst (process_mode env m s w)) = solved w @ [(T_MAX s, DT s)]"
proof (cases "solve env (PDE (m_d0 m) (m_a m) (m_b m) (m_d1 m)) state (T_MAX s) (DT s)")
  case (Inl e)
  with assms show ?thesis by (simp add: process_mode_def try_solve_def call_solve_def Let_def)
next
  case (Inr storage)
  show ?thesis
  proof (cases "list_ex (\<lambda>snap. invalid (snd snap)) storage")
    case True
    from process_mode_aborted [OF assms Inr True, of w] show ?thesis by auto
  next
    case False
    from process_mode_rendered [OF assms Inr False, of w] show ?thesis
      by (simp add: encode_video_keeps rendered_simps)
  qed
qed

lemma sample_solve:
  "solve (sample_env storage)
     (PDE (m_d0 (sample_mode a)) (m_a (sample_mode a)) (m_b (sample_mode a)) (m_d1 (sample_mode a)))
     state (T_MAX (sample_settings fixed)) (DT (sample_settings fixed)) = Inr storage"
  by (simp add: sample_env_def)

lemma sample_png_files:
  "sort (filter (\<lambda>f. endswith f ''.png'') (listdir sample_frames)) =
     [''frame_0000.png'', ''frame_0001.png'', ''frame_0002.png'']"
  by (simp add: sample_frames_def listdir_def endswith_def)

subsection \<open>Grids\<close>

lemma length_grid_of [simp]: "length (grid_of n f) = n"
  by (simp add: grid_of_def)

lemma grid_of_row: "y < n \<Longrightarrow> grid_of n f ! y = map (f y) [0..<n]"
  by (simp add: grid_of_def)

lemma grid_of_nth: "y < n \<Longrightarrow> x < n \<Longrightarrow> grid_of n f ! y ! x = f y x"
  by (simp add: grid_of_row)

lemma zero_outside_grid:
  "zero_outside (grid_of n inside) (grid_of n f) =
   grid_of n (\<lambda>y x. if inside y x then f y x else Finite 0)"
  by (simp add: zero_outside_def grid_of_def map2_map_map)

lemma circular_mask_nth:
  "y < n \<Longrightarrow> x < n \<Longrightarrow> circular_mask n thr ! y ! x \<longleftrightarrow> dist_from_center n y x \<le> thr"
  by (simp add: circular_mask_def grid_of_nth)

lemma init_state_InrD:
  assumes "init_state env m s = Inr (RADIUS, cmask, state)"
  shows "truediv 1 (ZOOM_FACTOR s) = Inr RADIUS"
    and "\<exists>thr. mask_threshold RADIUS (RESOLUTION s) = Inr thr \<and>
               cmask = circular_mask (RESOLUTION s) thr"
    and "\<exists>ratio. truediv (m_b m) (m_a m) = Inr ratio \<and>
           state = \<lparr>grid_radius = RADIUS, grid_shape = RESOLUTION s,
                    grid_periodic = (\<not> FIXED_BOUNDARY s),
                    u_data = (if FIXED_BOUNDARY s
                              then zero_outside cmask (grid_of (RESOLUTION s) (\<lambda>y x. Finite (m_a m)))
                              else grid_of (RESOLUTION s) (\<lambda>y x. Finite (m_a m))),
                    v_data = (if FIXED_BOUNDARY s
                              then zero_outside cmask (grid_of (RESOLUTION s)
                                     (\<lambda>y x. Finite (fadd ratio (fmul (rnd (1 / 10)) (random_normal env y x)))))
                              else grid_of (RESOLUTION s)
                                     (\<lambda>y x. Finite (fadd ratio (fmul (rnd (1 / 10)) (random_normal env y x)))))\<rparr>"
  using assms
  by (auto simp: init_state_def Let_def split: sum.splits if_splits)

lemma sqrt_squares: "sqrt 25 = 5" "sqrt 16 = 4" "sqrt 2500 = 50"
  by (rule real_sqrt_unique; simp)+

lemma sample_cells:
  "dist_from_center 8 0 1 = 5" "dist_from_center 8 0 (Suc 0) = 5" "dist_from_center 8 4 0 = 4"
  by (simp_all add: dist_from_center_def fsqrt_def sqrt_squares rnd_small)

subsection \<open>The mask threshold\<close>

lemma pow2_0 [simp]: "pow2 0 = 1"
  by (simp add: pow2_def)

lemma pow2_1: "pow2 1 = 2"
  by (simp add: pow2_def)

lemma pow2_minus: "pow2 (- e) = 1 / pow2 e"
proof -
  have "pow2 (- e) * pow2 e = 1" using pow2_add [of "- e" e] by simp
  then show ?thesis using pow2_pos [of e] by (simp add: field_simps)
qed

lemma rnd_pow2: "rnd (pow2 e) = pow2 e"
  using rnd_exact [of 1 e] by simp

lemma mask_threshold_pow2:
  assumes "n < 2 ^ 53"
  shows "truediv 1 (pow2 k) = Inr (pow2 (- k))"
    and "mask_threshold (pow2 (- k)) n = Inr (real n / 2)"
proof -
  define e1 where "e1 = 1 - k"
  define e2 where "e2 = k - 1"
  have nz: "pow2 e \<noteq> 0" for e using pow2_pos [of e] by simp
  show "truediv 1 (pow2 k) = Inr (pow2 (- k))"
    using nz [of k] by (simp add: truediv_def pow2_minus [symmetric] rnd_pow2)
  have "pow2 e1 = pow2 1 * pow2 (- k)" unfolding e1_def using pow2_add [of 1 "- k"] by simp
  then have "2 * pow2 (- k) = pow2 e1" by (simp add: pow2_1)
  then have a: "fmul 2 (pow2 (- k)) = pow2 e1" by (simp only: fmul_def rnd_pow2)
  have "pow2 e2 = 1 / pow2 e1" unfolding e1_def e2_def using pow2_minus [of "1 - k"] by simp
  then have "real n / pow2 e1 = real n * pow2 e2" by simp
  then have "rnd (real n / pow2 e1) = real n * pow2 e2"
    using rnd_exact [OF assms, of e2] by (simp only:)
  then have b: "truediv (real n) (pow2 e1) = Inr (real n * pow2 e2)"
    using nz [of e1] by (simp add: truediv_def)
  have "pow2 (- 1) = pow2 (- k) * pow2 e2" unfolding e2_def using pow2_add [of "- k" "k - 1"] by simp
  then have c: "pow2 (- k) * (real n * pow2 e2) = real n * pow2 (- 1)" by simp
  have "fmul (pow2 (- k)) (real n * pow2 e2) = real n * pow2 (- 1)"
    unfolding fmul_def c by (rule rnd_exact [OF assms])
  also have "\<dots> = real n / 2" by (simp add: pow2_def)
  finally have d: "fmul (pow2 (- k)) (real n * pow2 e2) = real n / 2" .
  show "mask_threshold (pow2 (- k)) n = Inr (real n / 2)"
    by (simp only: mask_threshold_def a b sum.case d)
qed

lemma zoom13:
  "rnd (13 / 10) = 5854679515581645 / 4503599627370496"
  "truediv 1 (5854679515581645 / 4503599627370496) = Inr (866076851417403 / 1125899906842624)"
  "mask_threshold (866076851417403 / 1125899906842624) 100 = Inr (50 - 1 / 2 ^ 47)"
  "truediv 1 1 = Inr 1" "mask_threshold 1 100 = Inr 50" "truediv 3 1 = Inr 3" "rnd 50 = 50"
  by code_simp+


lemma computed_mask_fixed:
  assumes "init_state env m s = Inr (RADIUS, cmask, state)"
  shows "computed_mask env m (s\<lparr>FIXED_BOUNDARY := fixed\<rparr>) = Some cmask"
proof -
  from init_state_InrD(1) [OF assms] have r: "truediv 1 (ZOOM_FACTOR s) = Inr RADIUS" .
  from init_state_InrD(2) [OF assms] obtain thr
    where t: "mask_threshold RADIUS (RESOLUTION s) = Inr thr"
      and c: "cmask = circular_mask (RESOLUTION s) thr" by blast
  from init_state_InrD(3) [OF assms] obtain ratio
    where q: "truediv (m_b m) (m_a m) = Inr ratio" by blast
  show ?thesis by (simp add: computed_mask_def init_state_def r t c q Let_def)
qed

lemma make_figure_layers:
  "u_layer (make_figure m s RADIUS cmask snap) = masked_where_outside cmask (fst (snd snap))"
  "v_layer (make_figure m s RADIUS cmask snap) = masked_where_outside cmask (snd (snd snap))"
  by (simp_all add: make_figure_def split: prod.splits)

lemma computed_mask_zoomed:
  "truediv 1 zoom = Inr RADIUS \<Longrightarrow> mask_threshold RADIUS 100 = Inr thr \<Longrightarrow>
   computed_mask (sample_env []) (sample_mode 1) (zoomed_settings zoom) = Some (circular_mask 100 thr)"
  by (simp add: computed_mask_def init_state_def zoomed_settings_def sample_json_def
      update_settings_def json_settings.extend_def settings.fields_def sample_mode_def
      zoom13 Let_def)

subsection \<open>The solver is consulted at one point only\<close>

lemma init_state_solve_update: "init_state (env\<lparr>solve := f\<rparr>) m s = init_state env m s"
  by (simp add: init_state_def Let_def split: sum.splits)

lemma scan_storage_solve_update:
  "scan_storage (env\<lparr>solve := f\<rparr>) title storage w = scan_storage env title storage w"
proof (induction storage arbitrary: w)
  case Nil
  show ?case by simp
next
  case (Cons snap storage)
  obtain t u v where snap: "snap = (t, u, v)" by (cases snap) auto
  show ?case
    by (cases "invalid (u, v)")
       (simp_all add: snap check_for_invalid_values_def print_debug_info_def Cons.IH)
qed

lemma render_frames_solve_update:
  "render_frames (env\<lparr>solve := f\<rparr>) m s RADIUS cmask k snaps st =
   render_frames env m s RADIUS cmask k snaps st"
proof (induction snaps arbitrary: k st)
  case Nil
  show ?case by simp
next
  case (Cons snap snaps)
  obtain w wh where st: "st = (w, wh)" by (cases st) auto
  show ?case by (simp add: st Let_def Cons.IH)
qed

lemma process_mode_solve_update:
  assumes "init_state env m s = Inr (RADIUS, cmask, state)"
    and "f (PDE (m_d0 m) (m_a m) (m_b m) (m_d1 m)) state (T_MAX s) (DT s) =
         solve env (PDE (m_d0 m) (m_a m) (m_b m) (m_d1 m)) state (T_MAX s) (DT s)"
  shows "process_mode (env\<lparr>solve := f\<rparr>) m s w = process_mode env m s w"
  using assms
  by (simp add: process_mode_def try_solve_def call_solve_def init_state_solve_update
      scan_storage_solve_update render_frames_solve_update Let_def)

lemma process_mode_solver_error:
  assumes "init_state env m s = Inr (RADIUS, cmask, state)"
    and "solve env (PDE (m_d0 m) (m_a m) (m_b m) (m_d1 m)) state (T_MAX s) (DT s) = Inl e"
    and "\<not> caught e"
  shows "snd (process_mode env m s w) = Inl e"
  using assms by (simp add: process_mode_def try_solve_def call_solve_def Let_def)

lemma init_state_probe:
  "init_state (probe_env expected) (sample_mode 1) (sample_settings fixed) =
   init_state (sample_env []) (sample_mode 1) (sample_settings fixed)"
  by (simp add: probe_env_def init_state_solve_update)

section \<open>Numerical blow-up aborts the mode\<close>

text \<open>
  C1: when the snapshot sequence returned by the solver contains a NaN or an Inf,
  \<open>process_mode\<close> logs the error and the min/max and mean/std statistics of the first
  offending snapshot, logs the caught exception and returns normally; the frames directory
  and the video files are what they were before the call.
\<close>

theorem process_mode_invalid_values:
  assumes "init_state env m s = Inr (RADIUS, cmask, state)"
    and "solve env (PDE (m_d0 m) (m_a m) (m_b m) (m_d1 m)) state (T_MAX s) (DT s) = Inr storage"
    and "list_ex (\<lambda>snap. invalid (snd snap)) storage"
  shows "\<exists>t u v. find (\<lambda>snap. invalid (snd snap)) storage = Some (t, u, v) \<and>
     process_mode env m s w =
       (w\<lparr>log_lines := log_lines w @
            [(INFO, Starting_mode (m_title m)),
             (DEBUG, Frames_directory_created (m_title m)),
             (ERROR, Invalid_values (m_title m) t),
             (DEBUG, Debug_info_for (m_title m) t),
             (DEBUG, Min_Max (np_min env (cells (u, v))) (np_max env (cells (u, v)))),
             (DEBUG, Mean_Std (np_mean env (cells (u, v))) (np_std env (cells (u, v)))),
             (ERROR, Warning_or_error (m_title m) (Invalid_values_encountered (m_title m) t))],
           solved := solved w @ [(T_MAX s, DT s)]\<rparr>,
        Inr ()) \<and>
     frames (fst (process_mode env m s w)) = frames w \<and>
     videos (fst (process_mode env m s w)) = videos w"
  using assms by (rule process_mode_aborted)

theorem process_mode_invalid_values_witness:
  "list_ex (\<lambda>snap. invalid (snd snap)) [sample_snapshot 0 (Finite 3), sample_snapshot 1 NaN, sample_snapshot 2 NaN] \<and>
   log_lines (fst (process_mode (sample_env [sample_snapshot 0 (Finite 3), sample_snapshot 1 NaN, sample_snapshot 2 NaN])
       (sample_mode 1) (sample_settings False) new_world)) =
     [(INFO, Starting_mode ''Spots''),
      (DEBUG, Frames_directory_created ''Spots''),
      (ERROR, Invalid_values ''Spots'' 1),
      (DEBUG, Debug_info_for ''Spots'' 1),
      (DEBUG, Min_Max NaN NaN),
      (DEBUG, Mean_Std NaN NaN),
      (ERROR, Warning_or_error ''Spots'' (Invalid_values_encountered ''Spots'' 1))] \<and>
   snd (process_mode (sample_env [sample_snapshot 0 (Finite 3), sample_snapshot 1 NaN, sample_snapshot 2 NaN])
       (sample_mode 1) (sample_settings False) new_world) = Inr () \<and>
   frames (fst (process_mode (sample_env [sample_snapshot 0 (Finite 3), sample_snapshot 1 NaN, sample_snapshot 2 NaN])
       (sample_mode 1) (sample_settings False) new_world)) = [] \<and>
   videos (fst (process_mode (sample_env [sample_snapshot 0 (Finite 3), sample_snapshot 1 NaN, sample_snapshot 2 NaN])
       (sample_mode 1) (sample_settings False) new_world)) = []"
proof -
  let ?st = "[sample_snapshot 0 (Finite 3), sample_snapshot 1 NaN, sample_snapshot 2 NaN]"
  have bad: "list_ex (\<lambda>snap. invalid (snd snap)) ?st" by (simp add: invalid_sample)
  have sol: "solve (sample_env ?st) (PDE (m_d0 (sample_mode 1)) (m_a (sample_mode 1)) (m_b (sample_mode 1)) (m_d1 (sample_mode 1)))
      st (T_MAX (sample_settings False)) (DT (sample_settings False)) = Inr ?st" for st
    by (simp add: sample_env_def)
  have fnd: "find (\<lambda>snap. invalid (snd snap)) ?st = Some (t, u, v) \<Longrightarrow> t = 1" for t u v
    by (simp add: invalid_sample) (simp add: sample_snapshot_def)
  from process_mode_invalid_values [OF init_state_sample sol bad, of new_world] fnd bad
  show ?thesis
    by (auto simp: sample_env_def sample_mode_def new_world_def)
qed

section \<open>A zero reaction parameter\<close>

text \<open>
  C10: for a mode with \<open>a = 0\<close> the initialization fails with a ZeroDivisionError (from
  \<^verbatim>\<open>b / a\<close>, or earlier from \<^verbatim>\<open>1 / ZOOM_FACTOR\<close>), after the first log line only and
  before the solver is called.
\<close>

theorem process_mode_a_zero:
  "m_a m = 0 \<Longrightarrow>
   process_mode env m s w = (logging INFO (Starting_mode (m_title m)) w, Inl ZeroDivisionError) \<and>
   solved (fst (process_mode env m s w)) = solved w"
  by (simp add: process_mode_def init_state_a_zero logging_def Let_def)

theorem process_mode_a_zero_witness:
  "m_a (sample_mode 0) = 0 \<and>
   process_mode (sample_env []) (sample_mode 0) (sample_settings True) new_world =
     (new_world\<lparr>log_lines := [(INFO, Starting_mode ''Spots'')]\<rparr>, Inl ZeroDivisionError) \<and>
   solved (fst (process_mode (sample_env []) (sample_mode 0) (sample_settings True) new_world)) = []"
  using process_mode_a_zero [of "sample_mode 0" "sample_env []" "sample_settings True" new_world]
  by (simp add: sample_mode_def logging_def new_world_def)

section \<open>Frame names and the encoder's sort\<close>




section \<open>Allocation of the run directory\<close>

text \<open>
  C4: for every listing of the results directory, \<open>main\<close> allocates the run number
  \<open>max(existing numbers, default 0) + 1\<close>. It is positive and greater than the number of
  every numeric name in the listing, so the directory it names is not in the listing, and
  a second run on the directory so extended (whatever the order of the listing) allocates
  the next number, again a fresh name.
\<close>

theorem run_number_allocation:
  "\<exists>r. main js listing = Inr r \<and>
     render_number r = max_default (map py_int (filter isdigit listing)) 0 + 1 \<and>
     0 < render_number r \<and>
     (\<forall>name\<in>set listing. isdigit name \<longrightarrow> py_int name < render_number r) \<and>
     py_str (render_number r) \<notin> set listing \<and>
     set (results_listing r) = insert (py_str (render_number r)) (set listing) \<and>
     (\<forall>listing'. set listing' = set (results_listing r) \<longrightarrow>
        (\<exists>r'. main js listing' = Inr r' \<and> render_number r' = render_number r + 1 \<and>
              py_str (render_number r') \<notin> set listing'))"
proof -
  let ?r = "\<lparr>render_number = next_render_number listing,
          results_listing = makedirs (py_str (next_render_number listing)) listing,
          tasks = map (\<lambda>mode. (mode, update_settings js (rnd (dt js / 100)))) (modes js)\<rparr>"
  have 1: "main js listing = Inr ?r" by (rule main_Inr)
  have 2: "render_number ?r = max_default (map py_int (filter isdigit listing)) 0 + 1"
    by (simp add: next_render_number_def)
  have 3: "0 < render_number ?r" by (simp add: next_render_number_def)
  have 4: "\<forall>name\<in>set listing. isdigit name \<longrightarrow> py_int name < render_number ?r"
    by (simp add: next_render_number_gt)
  have 5: "py_str (render_number ?r) \<notin> set listing" by (simp add: next_render_number_fresh)
  have 6: "set (results_listing ?r) = insert (py_str (render_number ?r)) (set listing)"
    by (simp add: set_makedirs)
  have 7: "\<exists>r'. main js listing' = Inr r' \<and> render_number r' = render_number ?r + 1 \<and>
              py_str (render_number r') \<notin> set listing'"
    if "set listing' = set (results_listing ?r)" for listing'
  proof -
    from that have "set listing' = insert (py_str (next_render_number listing)) (set listing)"
      by (simp add: set_makedirs)
    then have "next_render_number listing' = next_render_number listing + 1"
      by (rule next_render_number_after)
    moreover have "py_str (next_render_number listing') \<notin> set listing'"
      by (rule next_render_number_fresh)
    ultimately show ?thesis by (simp add: main_Inr)
  qed
  from 1 2 3 4 5 6 7 show ?thesis by blast
qed

theorem run_number_allocation_witness:
  "\<exists>r. main (sample_json True) [''2'', ''old'', ''007''] = Inr r \<and> render_number r = 8 \<and>
     results_listing r = [''2'', ''old'', ''007'', ''8''] \<and>
     (\<exists>r'. main (sample_json True) (results_listing r) = Inr r' \<and> render_number r' = 9)"
proof -
  have n: "next_render_number [''2'', ''old'', ''007''] = 8"
    by (simp add: next_render_number_def isdigit_def isdigit_char_iff py_int_def digit_val_def
        max_default_def)
  from run_number_allocation [of "sample_json True" "[''2'', ''old'', ''007'']"]
  obtain r where r: "main (sample_json True) [''2'', ''old'', ''007''] = Inr r"
    "\<forall>listing'. set listing' = set (results_listing r) \<longrightarrow>
        (\<exists>r'. main (sample_json True) listing' = Inr r' \<and>
              render_number r' = render_number r + 1 \<and>
              py_str (render_number r') \<notin> set listing')"
    by blast
  from r(1) have rn: "render_number r = 8" "results_listing r = [''2'', ''old'', ''007'', ''8'']"
    by (auto simp: main_Inr n makedirs_def py_str_values)
  from r(2) have "\<exists>r'. main (sample_json True) (results_listing r) = Inr r' \<and>
      render_number r' = render_number r + 1"
    by blast
  with r(1) rn show ?thesis by auto
qed

section \<open>One frame file per snapshot\<close>

text \<open>
  C3: when the solve completes and every snapshot is finite, \<open>process_mode\<close> leaves in the
  frames directory, for each snapshot index \<open>i\<close> counted from 0, the file
  \<^verbatim>\<open>frame_<i:04d>.png\<close> holding the rendering of snapshot \<open>i\<close>; every other name of the
  directory is untouched, and the names written are pairwise distinct, as many as there are
  snapshots.
\<close>

theorem frames_one_per_snapshot:
  assumes "init_state env m s = Inr (RADIUS, cmask, state)"
    and "solve env (PDE (m_d0 m) (m_a m) (m_b m) (m_d1 m)) state (T_MAX s) (DT s) = Inr storage"
    and "\<not> list_ex (\<lambda>snap. invalid (snd snap)) storage"
  shows "(\<forall>i<length storage.
            map_of (frames (fst (process_mode env m s w))) (frame_name i) =
            Some (savefig env (make_figure m s RADIUS cmask (storage ! i)))) \<and>
         (\<forall>name. name \<notin> frame_name ` {..<length storage} \<longrightarrow>
            map_of (frames (fst (process_mode env m s w))) name = map_of (frames w) name) \<and>
         card (frame_name ` {..<length storage}) = length storage"
proof -
  have fr: "frames (fst (process_mode env m s w)) = frames (rendered env m s RADIUS cmask storage w)"
    by (simp add: process_mode_rendered [OF assms] encode_video_keeps)
  have hit: "\<forall>i<length storage.
            map_of (frames (fst (process_mode env m s w))) (frame_name i) =
            Some (savefig env (make_figure m s RADIUS cmask (storage ! i)))"
    by (simp add: fr rendered_hit)
  have miss: "\<forall>name. name \<notin> frame_name ` {..<length storage} \<longrightarrow>
            map_of (frames (fst (process_mode env m s w))) name = map_of (frames w) name"
  proof (intro allI impI)
    fix name
    assume "name \<notin> frame_name ` {..<length storage}"
    then have "\<forall>i<length storage. name \<noteq> frame_name i" by auto
    then show "map_of (frames (fst (process_mode env m s w))) name = map_of (frames w) name"
      by (simp add: fr rendered_miss)
  qed
  have "inj_on frame_name {..<length storage}" by (simp add: inj_on_def frame_name_inj)
  then have cnt: "card (frame_name ` {..<length storage}) = length storage"
    by (simp add: card_image)
  from hit miss cnt show ?thesis by blast
qed

theorem frames_one_per_snapshot_witness:
  "\<not> list_ex (\<lambda>snap. invalid (snd snap))
       [sample_snapshot 0 (Finite 3), sample_snapshot 1 (Finite 2)] \<and>
   map_of (frames (fst (process_mode
       (sample_env [sample_snapshot 0 (Finite 3), sample_snapshot 1 (Finite 2)])
       (sample_mode 1) (sample_settings False) new_world))) ''frame_0000.png'' =
     Some (Png sample_image) \<and>
   map_of (frames (fst (process_mode
       (sample_env [sample_snapshot 0 (Finite 3), sample_snapshot 1 (Finite 2)])
       (sample_mode 1) (sample_settings False) new_world))) ''frame_0001.png'' =
     Some (Png sample_image) \<and>
   map_of (frames (fst (process_mode
       (sample_env [sample_snapshot 0 (Finite 3), sample_snapshot 1 (Finite 2)])
       (sample_mode 1) (sample_settings False) new_world))) ''frame_0002.png'' = None"
proof -
  let ?st = "[sample_snapshot 0 (Finite 3), sample_snapshot 1 (Finite 2)]"
  have ok: "\<not> list_ex (\<lambda>snap. invalid (snd snap)) ?st" by (simp add: invalid_sample)
  have out: "''frame_0002.png'' \<notin> frame_name ` {..<length ?st}"
    by (auto simp: lessThan_Suc frame_name_values numeral_2_eq_2)
  from frames_one_per_snapshot [OF init_state_sample [of ?st False] sample_solve ok, where w = new_world]
  have a: "\<forall>i<length ?st.
            map_of (frames (fst (process_mode (sample_env ?st) (sample_mode 1)
               (sample_settings False) new_world))) (frame_name i) =
            Some (savefig (sample_env ?st)
               (make_figure (sample_mode 1) (sample_settings False) 1 (circular_mask 8 4) (?st ! i)))"
    and b: "\<forall>name. name \<notin> frame_name ` {..<length ?st} \<longrightarrow>
            map_of (frames (fst (process_mode (sample_env ?st) (sample_mode 1)
               (sample_settings False) new_world))) name = map_of (frames new_world) name"
    by blast+
  from a [rule_format, of 0] a [rule_format, of 1] b [rule_format, OF out] ok
  show ?thesis by (simp add: frame_name_values sample_env_def new_world_def)
qed

section \<open>The missing first frame\<close>

text \<open>
  C5: when the video stage is reached and \<^verbatim>\<open>frame_0000.png\<close> of the frames directory
  cannot be read (in particular after a solve with no snapshots, in an empty directory),
  \<open>process_mode\<close> raises the ValueError "First frame not found" and writes no video.
\<close>

theorem first_frame_not_found:
  assumes "init_state env m s = Inr (RADIUS, cmask, state)"
    and "solve env (PDE (m_d0 m) (m_a m) (m_b m) (m_d1 m)) state (T_MAX s) (DT s) = Inr storage"
    and "\<not> list_ex (\<lambda>snap. invalid (snd snap)) storage"
    and "imread (frames (rendered env m s RADIUS cmask storage w)) ''frame_0000.png'' = None"
  shows "process_mode env m s w =
           (rendered env m s RADIUS cmask storage w,
            Inl (ValueError
                   (Text ''First frame not found. Check if the frames are being saved correctly.''))) \<and>
         videos (fst (process_mode env m s w)) = videos w"
  using assms(4)
  by (simp add: process_mode_rendered [OF assms(1-3)] encode_video_def rendered_simps)

theorem first_frame_not_found_witness:
  "imread (frames (rendered (sample_env []) (sample_mode 1) (sample_settings True) 1
       (circular_mask 8 4) [] new_world)) ''frame_0000.png'' = None \<and>
   snd (process_mode (sample_env []) (sample_mode 1) (sample_settings True) new_world) =
     Inl (ValueError (Text ''First frame not found. Check if the frames are being saved correctly.'')) \<and>
   videos (fst (process_mode (sample_env []) (sample_mode 1) (sample_settings True) new_world)) = [] \<and>
   frames (fst (process_mode (sample_env []) (sample_mode 1) (sample_settings True) new_world)) = []"
proof -
  have ok: "\<not> list_ex (\<lambda>snap. invalid (snd snap)) ([] :: snapshot list)" by simp
  have none: "imread (frames (rendered (sample_env []) (sample_mode 1) (sample_settings True) 1
       (circular_mask 8 4) [] new_world)) ''frame_0000.png'' = None"
    by (simp add: rendered_simps new_world_def imread_def)
  from first_frame_not_found [OF init_state_sample [of "[]" True] sample_solve ok none] none
  show ?thesis by (simp add: rendered_simps new_world_def)
qed

section \<open>The encoder\<close>

text \<open>
  C6, as amended: for every frames directory whose \<^verbatim>\<open>frame_0000.png\<close> is readable, the
  encoder goes through the \<^verbatim>\<open>.png\<close> names of the directory in sorted order, appends the
  image of each readable one to the video, logs a warning for each unreadable one and
  carries on; it ends normally with the video written, whose frame count is the number of
  readable \<^verbatim>\<open>.png\<close> files of the directory.
\<close>

theorem encoder_writes_readable_frames:
  assumes "imread (frames w) ''frame_0000.png'' = Some first_frame"
  shows "encode_video m s w =
           (w\<lparr>log_lines := log_lines w @
                 map (\<lambda>f. (WARNING, Error_reading_frame f))
                   (filter (\<lambda>f. imread (frames w) f = None)
                      (sort (filter (\<lambda>f. endswith f ''.png'') (listdir (frames w))))) @
                 [(INFO, Video_saved (m_filename m))],
               videos := write_file (m_filename m)
                 \<lparr>vid_fps = FRAME_RATE s,
                  vid_size = (img_width first_frame, img_height first_frame),
                  vid_frames = map (\<lambda>f. the (imread (frames w) f))
                     (filter (\<lambda>f. imread (frames w) f \<noteq> None)
                        (sort (filter (\<lambda>f. endswith f ''.png'') (listdir (frames w)))))\<rparr>
                 (videos w)\<rparr>,
            Inr ()) \<and>
         sorted (sort (filter (\<lambda>f. endswith f ''.png'') (listdir (frames w)))) \<and>
         distinct (sort (filter (\<lambda>f. endswith f ''.png'') (listdir (frames w)))) \<and>
         set (sort (filter (\<lambda>f. endswith f ''.png'') (listdir (frames w)))) =
           {f \<in> set (listdir (frames w)). endswith f ''.png''} \<and>
         length (map (\<lambda>f. the (imread (frames w) f))
                     (filter (\<lambda>f. imread (frames w) f \<noteq> None)
                        (sort (filter (\<lambda>f. endswith f ''.png'') (listdir (frames w)))))) =
           card {f \<in> set (listdir (frames w)). endswith f ''.png'' \<and> imread (frames w) f \<noteq> None}"
proof -
  let ?files = "sort (filter (\<lambda>f. endswith f ''.png'') (listdir (frames w)))"
  have run: "encode_video m s w =
           (w\<lparr>log_lines := log_lines w @
                 map (\<lambda>f. (WARNING, Error_reading_frame f))
                   (filter (\<lambda>f. imread (frames w) f = None) ?files) @
                 [(INFO, Video_saved (m_filename m))],
               videos := write_file (m_filename m)
                 \<lparr>vid_fps = FRAME_RATE s,
                  vid_size = (img_width first_frame, img_height first_frame),
                  vid_frames = map (\<lambda>f. the (imread (frames w) f))
                     (filter (\<lambda>f. imread (frames w) f \<noteq> None) ?files)\<rparr>
                 (videos w)\<rparr>,
            Inr ())"
    using assms by (simp add: encode_video_def write_frames_closed Let_def logging_def)
  have d: "distinct ?files" by (simp add: distinct_listdir)
  have st: "set ?files = {f \<in> set (listdir (frames w)). endswith f ''.png''}" by auto
  let ?ok = "filter (\<lambda>f. imread (frames w) f \<noteq> None) ?files"
  have "distinct ?ok" using d by simp
  then have c1: "card (set ?ok) = length ?ok" by (rule distinct_card)
  have c2: "set ?ok =
        {f \<in> set (listdir (frames w)). endswith f ''.png'' \<and> imread (frames w) f \<noteq> None}"
    by auto
  have "length (map (\<lambda>f. the (imread (frames w) f)) ?ok) = length ?ok" by (rule length_map)
  also have "\<dots> = card (set ?ok)" by (rule c1 [symmetric])
  finally have cnt: "length (map (\<lambda>f. the (imread (frames w) f)) ?ok) =
           card {f \<in> set (listdir (frames w)). endswith f ''.png'' \<and> imread (frames w) f \<noteq> None}"
    by (simp only: c2)
  from run d st cnt show ?thesis by simp
qed

theorem encoder_writes_readable_frames_witness:
  "imread sample_frames ''frame_0000.png'' = Some (sample_image\<lparr>img_pixels := [0]\<rparr>) \<and>
   encode_video (sample_mode 1) (sample_settings True) (new_world\<lparr>frames := sample_frames\<rparr>) =
     (\<lparr>frames = sample_frames,
       videos = [(''spots.mp4'',
                  \<lparr>vid_fps = 30, vid_size = (1500, 1200),
                   vid_frames = [sample_image\<lparr>img_pixels := [0]\<rparr>,
                                 sample_image\<lparr>img_pixels := [2]\<rparr>]\<rparr>)],
       log_lines = [(WARNING, Error_reading_frame ''frame_0001.png''),
                    (INFO, Video_saved ''spots.mp4'')],
       solved = []\<rparr>,
      Inr ())"
proof -
  have first: "imread (frames (new_world\<lparr>frames := sample_frames\<rparr>)) ''frame_0000.png'' =
      Some (sample_image\<lparr>img_pixels := [0]\<rparr>)"
    by (simp add: imread_def sample_frames_def)
  have rd: "imread sample_frames ''frame_0000.png'' = Some (sample_image\<lparr>img_pixels := [0]\<rparr>)"
    "imread sample_frames ''frame_0001.png'' = None"
    "imread sample_frames ''frame_0002.png'' = Some (sample_image\<lparr>img_pixels := [2]\<rparr>)"
    by (simp_all add: imread_def sample_frames_def)
  from encoder_writes_readable_frames [OF first, of "sample_mode 1" "sample_settings True"] rd
  show ?thesis
    by (simp add: sample_png_files new_world_def sample_mode_def sample_settings_def
        sample_json_def update_settings_def json_settings.extend_def settings.fields_def
        sample_image_def write_file_def)
qed

text \<open>
  Without a readable first frame the encoder is never opened: in a directory where
  \<^verbatim>\<open>frame_0000.png\<close> cannot be decoded and \<^verbatim>\<open>frame_0001.png\<close> can, the stage raises
  "First frame not found" and writes no video, although one \<^verbatim>\<open>.png\<close> file is readable.
\<close>

theorem encoder_first_frame_counterexample:
  "listdir frames_bad_first = [''frame_0000.png'', ''frame_0001.png''] \<and>
   imread frames_bad_first ''frame_0000.png'' = None \<and>
   imread frames_bad_first ''frame_0001.png'' = Some sample_image \<and>
   encode_video (sample_mode 1) (sample_settings True) (new_world\<lparr>frames := frames_bad_first\<rparr>) =
     (new_world\<lparr>frames := frames_bad_first\<rparr>,
      Inl (ValueError
             (Text ''First frame not found. Check if the frames are being saved correctly.''))) \<and>
   videos (fst (encode_video (sample_mode 1) (sample_settings True)
      (new_world\<lparr>frames := frames_bad_first\<rparr>))) = []"
  by (simp add: frames_bad_first_def listdir_def imread_def encode_video_def new_world_def)

section \<open>The time step handed to the solver\<close>

text \<open>
  C7: \<open>main\<close> hands each mode to \<open>process_mode\<close> with settings whose \<open>DT\<close> is
  \<^verbatim>\<open>settings["dt"] / 100\<close>, and whenever \<open>process_mode\<close> gets as far as the solver it
  calls it once, with that step (and \<open>t_max\<close> as the time range). The step is pinned on
  the solver itself: the outcome of \<open>process_mode\<close> is the same for any two solvers that
  agree at the arguments with step \<^verbatim>\<open>dt / 100\<close>, whatever they do at any other step, and an
  error that the solver raises there (other than the two caught classes) is the error
  \<open>process_mode\<close> ends with.
\<close>

theorem solver_step_is_dt_over_100:
  "\<exists>r step. truediv (dt js) 100 = Inr step \<and> step = rnd (dt js / 100) \<and>
     main js listing = Inr r \<and> map fst (tasks r) = modes js \<and>
     (\<forall>task\<in>set (tasks r). DT (snd task) = step \<and>
        (\<forall>env w RADIUS cmask state.
           init_state env (fst task) (snd task) = Inr (RADIUS, cmask, state) \<longrightarrow>
           solved (fst (process_mode env (fst task) (snd task) w)) =
             solved w @ [(t_max js, step)] \<and>
           (\<forall>f. f (PDE (m_d0 (fst task)) (m_a (fst task)) (m_b (fst task)) (m_d1 (fst task)))
                   state (t_max js) step =
                 solve env (PDE (m_d0 (fst task)) (m_a (fst task)) (m_b (fst task)) (m_d1 (fst task)))
                   state (t_max js) step \<longrightarrow>
                process_mode (env\<lparr>solve := f\<rparr>) (fst task) (snd task) w =
                process_mode env (fst task) (snd task) w) \<and>
           (\<forall>e. solve env (PDE (m_d0 (fst task)) (m_a (fst task)) (m_b (fst task)) (m_d1 (fst task)))
                   state (t_max js) step = Inl e \<longrightarrow>
                \<not> caught e \<longrightarrow>
                snd (process_mode env (fst task) (snd task) w) = Inl e)))"
proof -
  let ?s = "update_settings js (rnd (dt js / 100))"
  let ?step = "rnd (dt js / 100)"
  have s: "DT ?s = ?step" "T_MAX ?s = t_max js"
    by (simp_all add: update_settings_def json_settings.extend_def settings.fields_def)
  have body1: "solved (fst (process_mode env m ?s w)) = solved w @ [(t_max js, ?step)]"
    if init: "init_state env m ?s = Inr (RADIUS, cmask, state)" for env m w RADIUS cmask state
    using process_mode_solved [OF init, of w] by (simp only: s)
  have body2: "process_mode (env\<lparr>solve := f\<rparr>) m ?s w = process_mode env m ?s w"
    if init: "init_state env m ?s = Inr (RADIUS, cmask, state)"
      and eq: "f (PDE (m_d0 m) (m_a m) (m_b m) (m_d1 m)) state (t_max js) ?step =
             solve env (PDE (m_d0 m) (m_a m) (m_b m) (m_d1 m)) state (t_max js) ?step"
    for env m w RADIUS cmask state f
  proof -
    from eq have "f (PDE (m_d0 m) (m_a m) (m_b m) (m_d1 m)) state (T_MAX ?s) (DT ?s) =
             solve env (PDE (m_d0 m) (m_a m) (m_b m) (m_d1 m)) state (T_MAX ?s) (DT ?s)"
      by (simp only: s)
    with init show ?thesis by (rule process_mode_solve_update)
  qed
  have body3: "snd (process_mode env m ?s w) = Inl e"
    if init: "init_state env m ?s = Inr (RADIUS, cmask, state)"
      and eq: "solve env (PDE (m_d0 m) (m_a m) (m_b m) (m_d1 m)) state (t_max js) ?step = Inl e"
      and nc: "\<not> caught e"
    for env m w RADIUS cmask state e
  proof -
    from eq have "solve env (PDE (m_d0 m) (m_a m) (m_b m) (m_d1 m)) state (T_MAX ?s) (DT ?s) = Inl e"
      by (simp only: s)
    with init show ?thesis using nc by (rule process_mode_solver_error)
  qed
  have m: "main js listing =
     Inr \<lparr>render_number = next_render_number listing,
          results_listing = makedirs (py_str (next_render_number listing)) listing,
          tasks = map (\<lambda>mode. (mode, ?s)) (modes js)\<rparr>"
    by (rule main_Inr)
  have t: "truediv (dt js) 100 = Inr ?step" by (simp add: truediv_def)
  have tasks: "\<forall>task\<in>set (map (\<lambda>mode. (mode, ?s)) (modes js)). DT (snd task) = ?step \<and>
        (\<forall>env w RADIUS cmask state.
           init_state env (fst task) (snd task) = Inr (RADIUS, cmask, state) \<longrightarrow>
           solved (fst (process_mode env (fst task) (snd task) w)) =
             solved w @ [(t_max js, ?step)] \<and>
           (\<forall>f. f (PDE (m_d0 (fst task)) (m_a (fst task)) (m_b (fst task)) (m_d1 (fst task)))
                   state (t_max js) ?step =
                 solve env (PDE (m_d0 (fst task)) (m_a (fst task)) (m_b (fst task)) (m_d1 (fst task)))
                   state (t_max js) ?step \<longrightarrow>
                process_mode (env\<lparr>solve := f\<rparr>) (fst task) (snd task) w =
                process_mode env (fst task) (snd task) w) \<and>
           (\<forall>e. solve env (PDE (m_d0 (fst task)) (m_a (fst task)) (m_b (fst task)) (m_d1 (fst task)))
                   state (t_max js) ?step = Inl e \<longrightarrow>
                \<not> caught e \<longrightarrow>
                snd (process_mode env (fst task) (snd task) w) = Inl e))"
  proof (intro ballI conjI allI impI)
    fix task
    assume "task \<in> set (map (\<lambda>mode. (mode, ?s)) (modes js))"
    then have sn: "snd task = ?s" by auto
    show "DT (snd task) = ?step" by (simp only: sn s)
    fix env w RADIUS cmask state
    assume "init_state env (fst task) (snd task) = Inr (RADIUS, cmask, state)"
    then have init: "init_state env (fst task) ?s = Inr (RADIUS, cmask, state)" by (simp only: sn)
    show "solved (fst (process_mode env (fst task) (snd task) w)) = solved w @ [(t_max js, ?step)]"
      unfolding sn using init by (rule body1)
    show "process_mode (env\<lparr>solve := f\<rparr>) (fst task) (snd task) w =
          process_mode env (fst task) (snd task) w"
      if "f (PDE (m_d0 (fst task)) (m_a (fst task)) (m_b (fst task)) (m_d1 (fst task)))
            state (t_max js) ?step =
          solve env (PDE (m_d0 (fst task)) (m_a (fst task)) (m_b (fst task)) (m_d1 (fst task)))
            state (t_max js) ?step" for f
      unfolding sn using body2 [where f = f, OF init that] .
    show "snd (process_mode env (fst task) (snd task) w) = Inl e"
      if "solve env (PDE (m_d0 (fst task)) (m_a (fst task)) (m_b (fst task)) (m_d1 (fst task)))
            state (t_max js) ?step = Inl e" and "\<not> caught e" for e
      unfolding sn using body3 [where e = e, OF init that] .
  qed
  let ?r = "\<lparr>render_number = next_render_number listing,
          results_listing = makedirs (py_str (next_render_number listing)) listing,
          tasks = map (\<lambda>mode. (mode, ?s)) (modes js)\<rparr>"
  have tr: "tasks ?r = map (\<lambda>mode. (mode, ?s)) (modes js)" by simp
  have mf: "map fst (tasks ?r) = modes js" by (simp add: o_def)
  show ?thesis
  proof (intro exI [of _ ?r] exI [of _ ?step] conjI)
    show "truediv (dt js) 100 = Inr ?step" by (rule t)
    show "?step = rnd (dt js / 100)" by (rule refl)
    show "main js listing = Inr ?r" by (rule m)
    show "map fst (tasks ?r) = modes js" by (rule mf)
    show "\<forall>task\<in>set (tasks ?r). DT (snd task) = ?step \<and>
        (\<forall>env w RADIUS cmask state.
           init_state env (fst task) (snd task) = Inr (RADIUS, cmask, state) \<longrightarrow>
           solved (fst (process_mode env (fst task) (snd task) w)) =
             solved w @ [(t_max js, ?step)] \<and>
           (\<forall>f. f (PDE (m_d0 (fst task)) (m_a (fst task)) (m_b (fst task)) (m_d1 (fst task)))
                   state (t_max js) ?step =
                 solve env (PDE (m_d0 (fst task)) (m_a (fst task)) (m_b (fst task)) (m_d1 (fst task)))
                   state (t_max js) ?step \<longrightarrow>
                process_mode (env\<lparr>solve := f\<rparr>) (fst task) (snd task) w =
                process_mode env (fst task) (snd task) w) \<and>
           (\<forall>e. solve env (PDE (m_d0 (fst task)) (m_a (fst task)) (m_b (fst task)) (m_d1 (fst task)))
                   state (t_max js) ?step = Inl e \<longrightarrow>
                \<not> caught e \<longrightarrow>
                snd (process_mode env (fst task) (snd task) w) = Inl e))"
      unfolding tr by (rule tasks)
  qed
qed

theorem solver_step_is_dt_over_100_witness:
  "\<exists>r. main (sample_json False) [] = Inr r \<and> tasks r = [(sample_mode 1, sample_settings False)] \<and>
     dt (sample_json False) = 1 \<and>
     solved (fst (process_mode (probe_env (rnd (1 / 100))) (sample_mode 1) (sample_settings False)
        new_world)) = [(20, rnd (1 / 100))] \<and>
     snd (process_mode (probe_env (rnd (1 / 100))) (sample_mode 1) (sample_settings False) new_world) =
       Inl (OtherError (Text ''called with the expected step''))"
proof -
  let ?js = "sample_json False"
  let ?env = "probe_env (rnd (1 / 100))"
  let ?task = "(sample_mode 1, sample_settings False)"
  let ?state = "\<lparr>grid_radius = 1, grid_shape = 8, grid_periodic = (\<not> False),
           u_data = (if False then zero_outside (circular_mask 8 4) (grid_of 8 (\<lambda>y x. Finite 1))
                     else grid_of 8 (\<lambda>y x. Finite 1)),
           v_data = (if False then zero_outside (circular_mask 8 4) (grid_of 8 (\<lambda>y x. Finite 3))
                     else grid_of 8 (\<lambda>y x. Finite 3))\<rparr>"
  have d: "dt ?js = 1" "t_max ?js = 20" by (simp_all add: sample_json_def)
  have mt: "tasks r = [?task]" if "main ?js [] = Inr r" for r
    using that by (auto simp: main_Inr sample_json_def sample_settings_def)
  have init: "init_state ?env (fst ?task) (snd ?task) = Inr (1, circular_mask 8 4, ?state)"
    by (simp only: fst_conv snd_conv init_state_probe init_state_sample)
  have nc: "\<not> caught (OtherError (Text ''called with the expected step''))" by simp
  from solver_step_is_dt_over_100 [of ?js "[]"] show ?thesis
  proof (elim exE conjE)
    fix r step
    assume st: "step = rnd (dt ?js / 100)" and mn: "main ?js [] = Inr r"
      and all: "\<forall>task\<in>set (tasks r). DT (snd task) = step \<and>
        (\<forall>env w RADIUS cmask state.
           init_state env (fst task) (snd task) = Inr (RADIUS, cmask, state) \<longrightarrow>
           solved (fst (process_mode env (fst task) (snd task) w)) =
             solved w @ [(t_max ?js, step)] \<and>
           (\<forall>f. f (PDE (m_d0 (fst task)) (m_a (fst task)) (m_b (fst task)) (m_d1 (fst task)))
                   state (t_max ?js) step =
                 solve env (PDE (m_d0 (fst task)) (m_a (fst task)) (m_b (fst task)) (m_d1 (fst task)))
                   state (t_max ?js) step \<longrightarrow>
                process_mode (env\<lparr>solve := f\<rparr>) (fst task) (snd task) w =
                process_mode env (fst task) (snd task) w) \<and>
           (\<forall>e. solve env (PDE (m_d0 (fst task)) (m_a (fst task)) (m_b (fst task)) (m_d1 (fst task)))
                   state (t_max ?js) step = Inl e \<longrightarrow>
                \<not> caught e \<longrightarrow>
                snd (process_mode env (fst task) (snd task) w) = Inl e))"
    have t: "tasks r = [?task]" using mn by (rule mt)
    have mem: "?task \<in> set (tasks r)" by (simp only: t list.set insertI1)
    have stp: "step = rnd (1 / 100)" by (simp only: st d)
    note P = bspec [OF all mem, THEN conjunct2, rule_format, OF init]
    have sol: "solve ?env (PDE (m_d0 (fst ?task)) (m_a (fst ?task)) (m_b (fst ?task)) (m_d1 (fst ?task)))
        ?state (t_max ?js) step = Inl (OtherError (Text ''called with the expected step''))"
      by (simp add: probe_env_def stp)
    have a: "solved (fst (process_mode ?env (fst ?task) (snd ?task) new_world)) =
        solved new_world @ [(t_max ?js, step)]"
      by (rule P [THEN conjunct1])
    have b: "snd (process_mode ?env (fst ?task) (snd ?task) new_world) =
        Inl (OtherError (Text ''called with the expected step''))"
      by (rule P [THEN conjunct2, THEN conjunct2, rule_format, OF sol nc])
    from a have a': "solved (fst (process_mode ?env (sample_mode 1) (sample_settings False) new_world)) =
        [(20, rnd (1 / 100))]"
      by (simp add: d stp new_world_def)
    from b have b': "snd (process_mode ?env (sample_mode 1) (sample_settings False) new_world) =
        Inl (OtherError (Text ''called with the expected step''))"
      by (simp only: fst_conv snd_conv)
    from mn t d(1) a' b' show ?thesis by blast
  qed
qed

section \<open>Zeroing outside the mask\<close>

text \<open>
  C2: with \<open>FIXED_BOUNDARY\<close> set, in the state that the initialization hands to the solver
  every cell of \<open>u\<close> and of \<open>v\<close> that lies outside the computed circular mask holds
  exactly zero.
\<close>

theorem fixed_boundary_zero_outside_mask:
  assumes "init_state env m s = Inr (RADIUS, cmask, state)"
    and "FIXED_BOUNDARY s"
    and "y < RESOLUTION s" and "x < RESOLUTION s"
    and "\<not> cmask ! y ! x"
  shows "u_data state ! y ! x = Finite 0 \<and> v_data state ! y ! x = Finite 0"
proof -
  from init_state_InrD(2) [OF assms(1)] obtain thr
    where cm: "cmask = circular_mask (RESOLUTION s) thr" by blast
  from init_state_InrD(3) [OF assms(1)] assms(2) obtain ratio
    where u: "u_data state = zero_outside cmask (grid_of (RESOLUTION s) (\<lambda>y x. Finite (m_a m)))"
      and v: "v_data state = zero_outside cmask (grid_of (RESOLUTION s)
                 (\<lambda>y x. Finite (fadd ratio (fmul (rnd (1 / 10)) (random_normal env y x)))))"
    by auto
  have out: "\<not> dist_from_center (RESOLUTION s) y x \<le> thr"
    using assms(3-5) by (simp add: cm circular_mask_nth)
  show ?thesis
    using assms(3,4) out
    by (simp add: u v cm circular_mask_def zero_outside_grid grid_of_nth)
qed

theorem fixed_boundary_zero_outside_mask_witness:
  "FIXED_BOUNDARY (sample_settings True) \<and> (0::nat) < RESOLUTION (sample_settings True) \<and>
   (1::nat) < RESOLUTION (sample_settings True) \<and>
   \<not> circular_mask 8 4 ! 0 ! 1 \<and>
   zero_outside (circular_mask 8 4) (grid_of 8 (\<lambda>y x. Finite 1)) ! 0 ! 1 = Finite 0 \<and>
   zero_outside (circular_mask 8 4) (grid_of 8 (\<lambda>y x. Finite 3)) ! 0 ! 1 = Finite 0"
proof -
  have s: "FIXED_BOUNDARY (sample_settings True)" "RESOLUTION (sample_settings True) = 8"
    by (simp_all add: sample_settings_def sample_json_def update_settings_def
        json_settings.extend_def settings.fields_def)
  have out: "\<not> circular_mask 8 4 ! 0 ! 1" by (simp add: circular_mask_nth sample_cells)
  from fixed_boundary_zero_outside_mask [OF init_state_sample [of "[]" True] s(1), of 0 1] s out
  show ?thesis by simp
qed

section \<open>The circular mask\<close>

text \<open>
  C9, as amended: the mask with which the fields are zeroed and with which both layers of
  every rendered frame are masked is the set of grid cells whose pixel distance from the
  grid centre is at most the double-precision value of
  \<^verbatim>\<open>RADIUS * (RESOLUTION / (2 * RADIUS))\<close>. That value is \<open>RESOLUTION / 2\<close> when
  \<open>ZOOM_FACTOR\<close> is a power of two (every rounding is then exact). The mask does not
  depend on \<open>FIXED_BOUNDARY\<close>, and the frames are masked whether or not the boundary is
  periodic.
\<close>

theorem circular_mask_use:
  assumes "init_state env m s = Inr (RADIUS, cmask, state)"
  shows "(\<exists>thr. mask_threshold RADIUS (RESOLUTION s) = Inr thr \<and>
            cmask = circular_mask (RESOLUTION s) thr \<and>
            (\<forall>y<RESOLUTION s. \<forall>x<RESOLUTION s.
               cmask ! y ! x \<longleftrightarrow> dist_from_center (RESOLUTION s) y x \<le> thr) \<and>
            (\<forall>k. ZOOM_FACTOR s = pow2 k \<longrightarrow> RESOLUTION s < 2 ^ 53 \<longrightarrow>
               thr = real (RESOLUTION s) / 2)) \<and>
         (\<forall>fixed. computed_mask env m (s\<lparr>FIXED_BOUNDARY := fixed\<rparr>) = Some cmask) \<and>
         (FIXED_BOUNDARY s \<longrightarrow>
            (\<exists>u v. u_data state = zero_outside cmask u \<and> v_data state = zero_outside cmask v)) \<and>
         (\<forall>storage w.
            solve env (PDE (m_d0 m) (m_a m) (m_b m) (m_d1 m)) state (T_MAX s) (DT s) = Inr storage \<longrightarrow>
            \<not> list_ex (\<lambda>snap. invalid (snd snap)) storage \<longrightarrow>
            (\<forall>i<length storage. \<exists>fig.
               map_of (frames (fst (process_mode env m s w))) (frame_name i) = Some (savefig env fig) \<and>
               u_layer fig = masked_where_outside cmask (fst (snd (storage ! i))) \<and>
               v_layer fig = masked_where_outside cmask (snd (snd (storage ! i)))))"
proof -
  from init_state_InrD(1) [OF assms] have r: "truediv 1 (ZOOM_FACTOR s) = Inr RADIUS" .
  from init_state_InrD(2) [OF assms] obtain thr
    where t: "mask_threshold RADIUS (RESOLUTION s) = Inr thr"
      and c: "cmask = circular_mask (RESOLUTION s) thr" by blast
  have cellwise: "\<forall>y<RESOLUTION s. \<forall>x<RESOLUTION s.
               cmask ! y ! x \<longleftrightarrow> dist_from_center (RESOLUTION s) y x \<le> thr"
    by (simp add: c circular_mask_nth)
  have exact: "thr = real (RESOLUTION s) / 2"
    if z: "ZOOM_FACTOR s = pow2 k" and n: "RESOLUTION s < 2 ^ 53" for k
  proof -
    from r z mask_threshold_pow2(1) [OF n, of k] have "RADIUS = pow2 (- k)" by simp
    with t mask_threshold_pow2(2) [OF n, of k] show ?thesis by simp
  qed
  have 1: "\<exists>thr. mask_threshold RADIUS (RESOLUTION s) = Inr thr \<and>
            cmask = circular_mask (RESOLUTION s) thr \<and>
            (\<forall>y<RESOLUTION s. \<forall>x<RESOLUTION s.
               cmask ! y ! x \<longleftrightarrow> dist_from_center (RESOLUTION s) y x \<le> thr) \<and>
            (\<forall>k. ZOOM_FACTOR s = pow2 k \<longrightarrow> RESOLUTION s < 2 ^ 53 \<longrightarrow>
               thr = real (RESOLUTION s) / 2)"
    using t c cellwise exact by blast
  have 2: "\<forall>fixed. computed_mask env m (s\<lparr>FIXED_BOUNDARY := fixed\<rparr>) = Some cmask"
    using computed_mask_fixed [OF assms] by blast
  have 3: "FIXED_BOUNDARY s \<longrightarrow>
            (\<exists>u v. u_data state = zero_outside cmask u \<and> v_data state = zero_outside cmask v)"
    using init_state_InrD(3) [OF assms] by auto
  have 4: "\<exists>fig.
               map_of (frames (fst (process_mode env m s w))) (frame_name i) = Some (savefig env fig) \<and>
               u_layer fig = masked_where_outside cmask (fst (snd (storage ! i))) \<and>
               v_layer fig = masked_where_outside cmask (snd (snd (storage ! i)))"
    if sol: "solve env (PDE (m_d0 m) (m_a m) (m_b m) (m_d1 m)) state (T_MAX s) (DT s) = Inr storage"
      and ok: "\<not> list_ex (\<lambda>snap. invalid (snd snap)) storage"
      and i: "i < length storage" for storage w i
  proof -
    have "frames (fst (process_mode env m s w)) = frames (rendered env m s RADIUS cmask storage w)"
      by (simp add: process_mode_rendered [OF assms sol ok] encode_video_keeps)
    with rendered_hit [OF i, of env m s RADIUS cmask w]
    have "map_of (frames (fst (process_mode env m s w))) (frame_name i) =
          Some (savefig env (make_figure m s RADIUS cmask (storage ! i)))" by simp
    then show ?thesis using make_figure_layers by blast
  qed
  from 1 2 3 4 show ?thesis by blast
qed

theorem circular_mask_use_witness:
  "\<not> FIXED_BOUNDARY (sample_settings False) \<and> ZOOM_FACTOR (sample_settings False) = pow2 0 \<and>
   mask_threshold 1 8 = Inr (8 / 2) \<and>
   computed_mask (sample_env [sample_snapshot 0 (Finite 3)]) (sample_mode 1)
     ((sample_settings False)\<lparr>FIXED_BOUNDARY := True\<rparr>) = Some (circular_mask 8 4) \<and>
   (\<exists>fig. map_of (frames (fst (process_mode (sample_env [sample_snapshot 0 (Finite 3)])
               (sample_mode 1) (sample_settings False) new_world))) ''frame_0000.png'' =
             Some (savefig (sample_env [sample_snapshot 0 (Finite 3)]) fig) \<and>
          u_layer fig = masked_where_outside (circular_mask 8 4) (grid_of 8 (\<lambda>y x. Finite 1)) \<and>
          v_layer fig = masked_where_outside (circular_mask 8 4) (grid_of 8 (\<lambda>y x. Finite 3)))"
proof -
  let ?st = "[sample_snapshot 0 (Finite 3)]"
  let ?env = "sample_env ?st"
  have s: "\<not> FIXED_BOUNDARY (sample_settings False)" "ZOOM_FACTOR (sample_settings False) = pow2 0"
    "RESOLUTION (sample_settings False) = 8"
    by (simp_all add: sample_settings_def sample_json_def update_settings_def
        json_settings.extend_def settings.fields_def)
  have ok: "\<not> list_ex (\<lambda>snap. invalid (snd snap)) ?st" by (simp add: invalid_sample)
  note c9 = circular_mask_use [OF init_state_sample [of ?st False]]
  from c9 have a: "computed_mask ?env (sample_mode 1)
     ((sample_settings False)\<lparr>FIXED_BOUNDARY := True\<rparr>) = Some (circular_mask 8 4)"
    by blast
  from c9 have "\<forall>storage w.
            solve ?env (PDE (m_d0 (sample_mode 1)) (m_a (sample_mode 1)) (m_b (sample_mode 1))
               (m_d1 (sample_mode 1)))
              \<lparr>grid_radius = 1, grid_shape = 8, grid_periodic = (\<not> False),
                u_data = (if False then zero_outside (circular_mask 8 4) (grid_of 8 (\<lambda>y x. Finite 1))
                     else grid_of 8 (\<lambda>y x. Finite 1)),
                v_data = (if False then zero_outside (circular_mask 8 4) (grid_of 8 (\<lambda>y x. Finite 3))
                     else grid_of 8 (\<lambda>y x. Finite 3))\<rparr>
              (T_MAX (sample_settings False)) (DT (sample_settings False)) = Inr storage \<longrightarrow>
            \<not> list_ex (\<lambda>snap. invalid (snd snap)) storage \<longrightarrow>
            (\<forall>i<length storage. \<exists>fig.
               map_of (frames (fst (process_mode ?env (sample_mode 1) (sample_settings False) w)))
                 (frame_name i) = Some (savefig ?env fig) \<and>
               u_layer fig = masked_where_outside (circular_mask 8 4) (fst (snd (storage ! i))) \<and>
               v_layer fig = masked_where_outside (circular_mask 8 4) (snd (snd (storage ! i))))"
    by blast
  from this [rule_format, OF sample_solve ok, of 0 new_world]
  have b: "\<exists>fig. map_of (frames (fst (process_mode ?env (sample_mode 1) (sample_settings False)
               new_world))) ''frame_0000.png'' = Some (savefig ?env fig) \<and>
          u_layer fig = masked_where_outside (circular_mask 8 4) (grid_of 8 (\<lambda>y x. Finite 1)) \<and>
          v_layer fig = masked_where_outside (circular_mask 8 4) (grid_of 8 (\<lambda>y x. Finite 3))"
    by (simp add: frame_name_values sample_snapshot_def)
  from s a b sample_threshold show ?thesis by simp
qed

text \<open>
  The threshold is not \<open>RESOLUTION / 2\<close> for every zoom factor: with \<open>RESOLUTION = 100\<close>
  and \<open>ZOOM_FACTOR = 1.3\<close> it is \<open>50 - 2\<^sup>-\<^sup>4\<^sup>7\<close>, and the cell in row 50, column 0, at
  distance exactly 50 from the centre, is outside the mask, while with \<open>ZOOM_FACTOR = 1\<close>
  it is inside.
\<close>

theorem circular_mask_zoom_counterexample:
  "rnd (13 / 10) = 5854679515581645 / 4503599627370496 \<and>
   computed_mask (sample_env []) (sample_mode 1) (zoomed_settings (5854679515581645 / 4503599627370496)) =
     Some (circular_mask 100 (50 - 1 / 2 ^ 47)) \<and>
   dist_from_center 100 50 0 = 50 \<and> (50::real) \<le> 100 / 2 \<and>
   \<not> circular_mask 100 (50 - 1 / 2 ^ 47) ! 50 ! 0 \<and>
   computed_mask (sample_env []) (sample_mode 1) (zoomed_settings 1) = Some (circular_mask 100 50) \<and>
   circular_mask 100 50 ! 50 ! 0"
proof -
  have d: "dist_from_center 100 50 0 = 50"
    by (simp add: dist_from_center_def fsqrt_def sqrt_squares zoom13)
  have "\<not> circular_mask 100 (50 - 1 / 2 ^ 47) ! 50 ! 0" "circular_mask 100 50 ! 50 ! 0"
    by (simp_all add: circular_mask_nth d)
  with d computed_mask_zoomed [OF zoom13(2) zoom13(3)] computed_mask_zoomed [OF zoom13(4) zoom13(5)]
    zoom13(1)
  show ?thesis by simp
qed

end
